theory Spec2Isabelle
  imports Complex_Main
begin

section \<open>Errors and printed lines\<close>

text \<open>
  Every exception the modelled functions can raise is a value. Printed lines are kept as
  structured records of the \<^verbatim>\<open>print\<close> call and its arguments, one constructor per
  \<^verbatim>\<open>print\<close> statement of \<^verbatim>\<open>tf_utils.py\<close>.
\<close>

datatype error =
    NameError int
  | NotImplementedError string
  | AssertionError
  | ValueError string
  | FileNotFoundError string
  | OSError string
  | AttributeError string

datatype line =
    SettingPrecision int
  | WarningSkipping string "nat list" "nat list"
  | InfoReset nat "string option"
  | WarningEmptyOptimizer
  | PrintedError error

section \<open>The checkpointing callback\<close>

text \<open>
  \<^verbatim>\<open>CheckpointAfterEpoch\<close> holds two dictionaries from epoch numbers to paths and the
  two lists of paths it has written.
\<close>

record CheckpointAfterEpoch =
  epoch2path :: "int \<rightharpoonup> string"
  epoch2path_optim :: "int \<rightharpoonup> string"
  created_model_ckp :: "string list"
  created_optim_ckp :: "string list"

definition init_callback :: "(int \<rightharpoonup> string) \<Rightarrow> (int \<rightharpoonup> string) \<Rightarrow> CheckpointAfterEpoch" where
  "init_callback e2p e2po =
     \<lparr>epoch2path = e2p, epoch2path_optim = e2po, created_model_ckp = [], created_optim_ckp = []\<rparr>"

text \<open>
  \<^verbatim>\<open>save_model(self.model, path)\<close> and \<^verbatim>\<open>save_optimizer(self.model.optimizer, path)\<close>
  create the directory of the path and write a file. Either can raise: the operating system
  refuses the path, or the callback has no model or the model no optimizer. What a save to a
  path raises, if anything, is given by the environment of the run; a save that returns is
  recorded as an effect.
\<close>

record environment =
  save_model_raises :: "string \<Rightarrow> error option"
  save_optimizer_raises :: "string \<Rightarrow> error option"

datatype io = SaveModel string | SaveOptimizer string

definition save_model :: "environment \<Rightarrow> string \<Rightarrow> io list \<times> error option" where
  "save_model env path =
     (case save_model_raises env path of None \<Rightarrow> ([SaveModel path], None) | Some e \<Rightarrow> ([], Some e))"

definition save_optimizer :: "environment \<Rightarrow> string \<Rightarrow> io list \<times> error option" where
  "save_optimizer env path =
     (case save_optimizer_raises env path of
        None \<Rightarrow> ([SaveOptimizer path], None)
      | Some e \<Rightarrow> ([], Some e))"

text \<open>
  The hook returns the callback as it leaves it, the saves it made and the exception it
  raised, if any. A save that raises ends the call: the path is not appended, and the second
  \<^verbatim>\<open>if\<close> is not reached when the first save raises.
\<close>

definition on_epoch_end ::
  "environment \<Rightarrow> CheckpointAfterEpoch \<Rightarrow> int \<Rightarrow> CheckpointAfterEpoch \<times> io list \<times> error option" where
  "on_epoch_end env self epoch =
     (let next_epoch = epoch + 1;
          (self1, io1, raised1) =
            (case epoch2path self next_epoch of
               Some path \<Rightarrow>
                 (case save_model env path of
                    (w, None) \<Rightarrow> (self\<lparr>created_model_ckp := created_model_ckp self @ [path]\<rparr>, w, None)
                  | (w, Some e) \<Rightarrow> (self, w, Some e))
             | None \<Rightarrow> (self, [], None))
      in case raised1 of
           Some e \<Rightarrow> (self1, io1, Some e)
         | None \<Rightarrow>
             (case epoch2path_optim self1 next_epoch of
                Some path \<Rightarrow>
                  (case save_optimizer env path of
                     (w, None) \<Rightarrow>
                       (self1\<lparr>created_optim_ckp := created_optim_ckp self1 @ [path]\<rparr>, io1 @ w, None)
                   | (w, Some e) \<Rightarrow> (self1, io1 @ w, Some e))
              | None \<Rightarrow> (self1, io1, None)))"

text \<open>
  The training loop of the framework, as far as the callback sees it: the hook is called at
  the end of epochs \<open>0, 1, \<dots>, E - 1\<close>, and an exception raised by the hook ends the run.
  Each effect is listed with the epoch index of the call that performed it.
\<close>

fun run_epochs ::
  "environment \<Rightarrow> CheckpointAfterEpoch \<Rightarrow> nat
     \<Rightarrow> CheckpointAfterEpoch \<times> (int \<times> io) list \<times> error option" where
  "run_epochs env self 0 = (self, [], None)"
| "run_epochs env self (Suc n) =
     (case run_epochs env self n of
        (self1, acts, Some e) \<Rightarrow> (self1, acts, Some e)
      | (self1, acts, None) \<Rightarrow>
          (case on_epoch_end env self1 (int n) of
             (self2, ios, raised) \<Rightarrow> (self2, acts @ map (Pair (int n)) ios, raised)))"

text \<open>
  The saves made for a key \<open>k\<close> of a dictionary are the saves of the call whose
  \<^verbatim>\<open>next_epoch\<close> is \<open>k\<close>.
\<close>

fun is_model_save :: "io \<Rightarrow> bool" where
  "is_model_save (SaveModel _) = True"
| "is_model_save (SaveOptimizer _) = False"

definition model_saves_for :: "(int \<times> io) list \<Rightarrow> int \<Rightarrow> io list" where
  "model_saves_for acts k = map snd (filter (\<lambda>(e, a). e + 1 = k \<and> is_model_save a) acts)"

definition optim_saves_for :: "(int \<times> io) list \<Rightarrow> int \<Rightarrow> io list" where
  "optim_saves_for acts k = map snd (filter (\<lambda>(e, a). e + 1 = k \<and> \<not> is_model_save a) acts)"

text \<open>An environment in which a save to the empty path fails and every other save succeeds.\<close>

definition ex_env :: environment where
  "ex_env =
     \<lparr>save_model_raises = (\<lambda>p. if p = [] then Some (OSError p) else None),
      save_optimizer_raises = (\<lambda>p. if p = [] then Some (FileNotFoundError p) else None)\<rparr>"

section \<open>Precision and loss-function lookup\<close>

text \<open>
  \<^verbatim>\<open>set_precision\<close> prints, picks a policy name and installs it as the global
  mixed-precision policy of the framework. The state is that global policy and the printed
  lines.
\<close>

record tf_global =
  policy :: "string option"
  stdout :: "line list"

definition set_precision :: "int \<Rightarrow> tf_global \<Rightarrow> (error + unit) \<times> tf_global" where
  "set_precision precision g =
     (let g1 = g\<lparr>stdout := stdout g @ [SettingPrecision precision]\<rparr>
      in if precision = 16 then (Inr (), g1\<lparr>policy := Some ''mixed_float16''\<rparr>)
         else if precision = 32 then (Inr (), g1\<lparr>policy := Some ''float32''\<rparr>)
         else if precision = 64 then (Inr (), g1\<lparr>policy := Some ''float64''\<rparr>)
         else (Inl (NameError precision), g1))"

datatype loss_fn = SparseCategoricalCrossentropy bool

definition get_loss_fn_from_alias :: "string \<Rightarrow> error + loss_fn" where
  "get_loss_fn_from_alias alias =
     (if alias = ''crossentropy'' then Inr (SparseCategoricalCrossentropy True)
      else Inl (NotImplementedError alias))"

section \<open>The model factory\<close>

text \<open>
  \<^verbatim>\<open>ResNetStiff\<close> first settles the input shape and the class count from the dataset
  name, then the block count and the widths from the alias, and hands these to the layer
  constructors of the framework. The model is the settled configuration; the layer graph the
  framework builds from it is not part of it. A Python tuple of numbers is a \<open>tup\<close>, since
  the alias branch wraps the three widths in a one-element tuple.
\<close>

datatype tup = Num int | Tup "tup list"

record resnet_config =
  cfg_input_shape :: "nat list"
  cfg_n_classes :: "nat list + nat"
  cfg_BLOCKS_IN_GROUP :: int
  cfg_features :: tup

definition ResNetStiff ::
  "string option \<Rightarrow> string option \<Rightarrow> nat list option \<Rightarrow> (nat list + nat) option \<Rightarrow> tup \<Rightarrow> int
     \<Rightarrow> error + resnet_config" where
  "ResNetStiff dataset alias input_shape n_classes features BLOCKS_IN_GROUP =
     (let sn =
            (if dataset = Some ''cifar'' \<or> dataset = Some ''cifar10''
               then Inr ([32, 32, 3], Inr 10)
             else if dataset = Some ''cifar100'' then Inr ([32, 32, 3], Inr 100)
             else if dataset = Some ''mnist'' then Inr ([28, 28, 1], Inr 10)
             else (case input_shape of
                     None \<Rightarrow> Inl AssertionError
                   | Some s \<Rightarrow>
                       (case n_classes of
                          None \<Rightarrow> Inl AssertionError
                        | Some c \<Rightarrow> Inr (s, c))))
      in case sn of
           Inl e \<Rightarrow> Inl e
         | Inr (s, c) \<Rightarrow>
             (if alias = Some ''WRN-16-8''
              then (let N = (16::int); K = (8::int)
                    in if (N - 4) mod 6 \<noteq> 0 then Inl AssertionError
                       else Inr \<lparr>cfg_input_shape = s, cfg_n_classes = c,
                                 cfg_BLOCKS_IN_GROUP = (N - 4) div 6,
                                 cfg_features = Tup [Tup [Num (16 * K), Num (32 * K), Num (64 * K)]]\<rparr>)
              else Inr \<lparr>cfg_input_shape = s, cfg_n_classes = c,
                        cfg_BLOCKS_IN_GROUP = BLOCKS_IN_GROUP, cfg_features = features\<rparr>))"

section \<open>Tensors, variables, models and the heap\<close>

text \<open>
  A tensor has a shape, a dtype and its entries, flattened. Weights are of a floating dtype.
  An entry is a number or NaN; rounding is outside of the model, so a bound handed to the
  framework stands for its value in the dtype of the tensor. A weight is a framework
  variable: a tensor with a name whose entries can be assigned. Variables live in a heap and
  are referred to by address, so that an assignment is visible through every reference.
  Addresses below \<open>allocated\<close> are in use.
\<close>

datatype dtype = float16 | bfloat16 | float32 | float64

datatype entry = NaN | Number real

record tensor =
  shape :: "nat list"
  dtype :: dtype
  val :: "entry list"

record variable = tensor +
  name :: string

record heap =
  var :: "nat \<Rightarrow> variable"
  allocated :: nat

text \<open>
  A model is known here by \<^verbatim>\<open>model.weights\<close>, the list of its variables, and by the way it
  was defined, on which cloning depends.
\<close>

datatype kind = Functional | Sequential | Subclassed

record model =
  weights :: "nat list"
  kind :: kind

text \<open>
  \<^verbatim>\<open>w.assign(t)\<close> belongs to the framework: it raises \<^verbatim>\<open>ValueError\<close> when the dtype or
  the shape of \<open>t\<close> is not that of the variable, and stores the entries of \<open>t\<close> in the
  variable otherwise.
\<close>

definition store :: "heap \<Rightarrow> nat \<Rightarrow> entry list \<Rightarrow> heap" where
  "store h w v = h\<lparr>var := (var h)(w := (var h w)\<lparr>val := v\<rparr>)\<rparr>"

definition assign :: "heap \<Rightarrow> nat \<Rightarrow> 'a tensor_scheme \<Rightarrow> error + heap" where
  "assign h w t =
     (if dtype t \<noteq> dtype (var h w) then Inl (ValueError ''dtype'')
      else if shape t \<noteq> shape (var h w) then Inl (ValueError ''shape'')
      else Inr (store h w (val t)))"

text \<open>
  The loop of \<^verbatim>\<open>set_all_weights_from_model\<close> over the zipped weight lists; \<open>out\<close> are the
  lines printed so far. The result is the heap, the printed lines and the exception that
  ended the loop, if any.
\<close>

fun set_all_pairs ::
  "heap \<Rightarrow> line list \<Rightarrow> (nat \<times> nat) list \<Rightarrow> heap \<times> line list \<times> error option" where
  "set_all_pairs h out [] = (h, out, None)"
| "set_all_pairs h out ((w1, w2) # ps) =
     (if shape (var h w1) = shape (var h w2)
      then (case assign h w1 (var h w2) of
              Inl e \<Rightarrow> (h, out, Some e)
            | Inr h1 \<Rightarrow> set_all_pairs h1 out ps)
      else set_all_pairs h
             (out @ [WarningSkipping (name (var h w1)) (shape (var h w1)) (shape (var h w2))]) ps)"

definition set_all_weights_from_model ::
  "heap \<Rightarrow> model \<Rightarrow> model \<Rightarrow> heap \<times> line list \<times> error option" where
  "set_all_weights_from_model h model source_model =
     set_all_pairs h [] (zip (weights model) (weights source_model))"

text \<open>
  A pair of weights whose shapes differ, and the line printed for it.
\<close>

definition mismatch :: "heap \<Rightarrow> nat \<times> nat \<Rightarrow> bool" where
  "mismatch h p = (shape (var h (fst p)) \<noteq> shape (var h (snd p)))"

text \<open>A pair of weights of one shape and two dtypes: its assignment raises.\<close>

definition dtype_conflict :: "heap \<Rightarrow> nat \<times> nat \<Rightarrow> bool" where
  "dtype_conflict h p =
     (shape (var h (fst p)) = shape (var h (snd p)) \<and> dtype (var h (fst p)) \<noteq> dtype (var h (snd p)))"

definition warning_for :: "heap \<Rightarrow> nat \<times> nat \<Rightarrow> line" where
  "warning_for h p =
     WarningSkipping (name (var h (fst p))) (shape (var h (fst p))) (shape (var h (snd p)))"

text \<open>
  \<^verbatim>\<open>tf.keras.models.clone_model\<close> belongs to the framework. For a functional or a sequential
  model it builds a model of the same architecture, whose variables are new objects with the
  names, shapes and dtypes of the original's and freshly initialised entries; \<open>init i\<close> are
  the entries the initialiser draws for the \<open>i\<close>-th weight. For a model of a subclass it
  raises \<^verbatim>\<open>ValueError\<close> in the versions of the framework that have the
  \<^verbatim>\<open>mixed_precision.experimental\<close> module this file imports (later versions return a clone
  that has no weights yet).
\<close>

definition keras_clone_model ::
  "(nat \<Rightarrow> entry list) \<Rightarrow> heap \<Rightarrow> model \<Rightarrow> error + (heap \<times> model)" where
  "keras_clone_model init h m =
     (if kind m = Subclassed then Inl (ValueError ''subclassed'')
      else (let n = length (weights m); base = allocated h
            in Inr (h\<lparr>var := (\<lambda>a. if base \<le> a \<and> a < base + n
                                    then (var h (weights m ! (a - base)))\<lparr>val := init (a - base)\<rparr>
                                    else var h a),
                       allocated := base + n\<rparr>,
                     \<lparr>weights = [base ..< base + n], kind = kind m\<rparr>)))"

text \<open>
  \<^verbatim>\<open>clone_model\<close> of this repository: the heap it leaves, the lines it prints, and the new
  model or the exception raised.
\<close>

definition clone_model ::
  "(nat \<Rightarrow> entry list) \<Rightarrow> heap \<Rightarrow> model \<Rightarrow> heap \<times> line list \<times> (error + model)" where
  "clone_model init h model =
     (case keras_clone_model init h model of
        Inl e \<Rightarrow> (h, [], Inl e)
      | Inr (h1, new_model) \<Rightarrow>
          (case set_all_weights_from_model h1 new_model model of
             (h2, out, Some e) \<Rightarrow> (h2, out, Inl e)
           | (h2, out, None) \<Rightarrow> (h2, out, Inr new_model)))"

text \<open>
  A weight file holds the saved arrays in the order of \<^verbatim>\<open>model.weights\<close>, each with its
  shape. \<^verbatim>\<open>load_weights\<close> belongs to the framework: it raises when the file cannot be opened
  or the saved shapes are not those of the model, and gives every variable the saved entries
  otherwise.
\<close>

type_synonym array = "nat list \<times> entry list"

fun load_pairs :: "heap \<Rightarrow> (nat \<times> array) list \<Rightarrow> heap" where
  "load_pairs h [] = h"
| "load_pairs h ((w, arr) # ps) = load_pairs (store h w (snd arr)) ps"

definition load_weights :: "(string \<rightharpoonup> array list) \<Rightarrow> heap \<Rightarrow> model \<Rightarrow> string \<Rightarrow> error + heap" where
  "load_weights fs h m path =
     (case fs path of
        None \<Rightarrow> Inl (OSError path)
      | Some saved \<Rightarrow>
          if map fst saved \<noteq> map (\<lambda>w. shape (var h w)) (weights m)
          then Inl (ValueError ''shape mismatch'')
          else Inr (load_pairs h (zip (weights m) saved)))"

text \<open>Python's \<^verbatim>\<open>k in s\<close> on strings: \<open>k\<close> occurs in \<open>s\<close> as a contiguous piece.\<close>

fun py_in :: "string \<Rightarrow> string \<Rightarrow> bool" where
  "py_in k [] = (k = [])"
| "py_in k (c # s) = (take (length k) (c # s) = k \<or> py_in k s)"

text \<open>
  The test \<^verbatim>\<open>skip_keyword and skip_keyword in w1.name\<close>: \<^verbatim>\<open>None\<close> and the empty string
  are false in Python.
\<close>

definition skips :: "string option \<Rightarrow> string \<Rightarrow> bool" where
  "skips skip_keyword nm =
     (case skip_keyword of None \<Rightarrow> False | Some k \<Rightarrow> k \<noteq> [] \<and> py_in k nm)"

text \<open>
  The loop of \<^verbatim>\<open>reset_weights_to_checkpoint\<close>: the heap, the count of skipped weights and
  the exception that ended the loop, if any.
\<close>

fun reset_pairs ::
  "string option \<Rightarrow> heap \<Rightarrow> nat \<Rightarrow> (nat \<times> nat) list \<Rightarrow> heap \<times> nat \<times> error option" where
  "reset_pairs skip_keyword h skipped [] = (h, skipped, None)"
| "reset_pairs skip_keyword h skipped ((w1, w2) # ps) =
     (if skips skip_keyword (name (var h w1))
      then reset_pairs skip_keyword h (skipped + 1) ps
      else (case assign h w1 (var h w2) of
              Inl e \<Rightarrow> (h, skipped, Some e)
            | Inr h1 \<Rightarrow> reset_pairs skip_keyword h1 skipped ps))"

text \<open>
  \<^verbatim>\<open>reset_weights_to_checkpoint\<close>: the heap it leaves, the lines it prints, and the returned
  count or the exception raised. \<^verbatim>\<open>if ckp:\<close> is false for \<^verbatim>\<open>None\<close> and for the empty
  string.
\<close>

definition reset_weights_to_checkpoint ::
  "(string \<rightharpoonup> array list) \<Rightarrow> (nat \<Rightarrow> entry list) \<Rightarrow> heap \<Rightarrow> model \<Rightarrow> string option \<Rightarrow> string option
     \<Rightarrow> heap \<times> line list \<times> (error + nat)" where
  "reset_weights_to_checkpoint fs init h model ckp skip_keyword =
     (case keras_clone_model init h model of
        Inl e \<Rightarrow> (h, [], Inl e)
      | Inr (h1, temp) \<Rightarrow>
          (case (case ckp of
                   None \<Rightarrow> Inr h1
                 | Some path \<Rightarrow> if path \<noteq> [] then load_weights fs h1 temp path else Inr h1) of
             Inl e \<Rightarrow> (h1, [], Inl e)
           | Inr h2 \<Rightarrow>
               (case reset_pairs skip_keyword h2 0 (zip (weights model) (weights temp)) of
                  (h3, skipped, Some e) \<Rightarrow> (h3, [], Inl e)
                | (h3, skipped, None) \<Rightarrow> (h3, [InfoReset skipped skip_keyword], Inr skipped))))"

text \<open>The number of weights of a model that a keyword skips.\<close>

definition skipped_count :: "heap \<Rightarrow> model \<Rightarrow> string option \<Rightarrow> nat" where
  "skipped_count h m skip_keyword =
     length (filter (\<lambda>w. skips skip_keyword (name (var h w))) (weights m))"

section \<open>Clipping\<close>

text \<open>
  \<^verbatim>\<open>tf.clip_by_value(t, lo, hi)\<close> of the framework takes the minimum with \<open>hi\<close> and then
  the maximum with \<open>lo\<close>, entry by entry, and gives a new tensor of the shape and dtype of
  \<open>t\<close>. Minimum and maximum of the framework pass NaN on.
\<close>

fun clip_entry :: "real \<Rightarrow> real \<Rightarrow> entry \<Rightarrow> entry" where
  "clip_entry clip_value_min clip_value_max NaN = NaN"
| "clip_entry clip_value_min clip_value_max (Number x) = Number (max (min x clip_value_max) clip_value_min)"

definition clip_by_value :: "'a tensor_scheme \<Rightarrow> real \<Rightarrow> real \<Rightarrow> tensor" where
  "clip_by_value t clip_value_min clip_value_max =
     \<lparr>shape = shape t, dtype = dtype t,
      val = map (clip_entry clip_value_min clip_value_max) (val t)\<rparr>"

text \<open>
  An element of \<^verbatim>\<open>values\<close> is a variable or an array that is not one (a tensor of the
  framework, a numpy array). Reading either gives a tensor; only a variable has
  \<^verbatim>\<open>assign\<close>.
\<close>

datatype array_like = Variable nat | Array tensor

fun read :: "heap \<Rightarrow> array_like \<Rightarrow> tensor" where
  "read h (Variable a) = \<lparr>shape = shape (var h a), dtype = dtype (var h a), val = val (var h a)\<rparr>"
| "read h (Array t) = t"

fun clip_inplace :: "heap \<Rightarrow> real \<Rightarrow> real \<Rightarrow> array_like list \<Rightarrow> heap \<times> error option" where
  "clip_inplace h clip_from clip_at [] = (h, None)"
| "clip_inplace h clip_from clip_at (Variable a # vs) =
     (case assign h a (clip_by_value (var h a) clip_from clip_at) of
        Inl e \<Rightarrow> (h, Some e)
      | Inr h1 \<Rightarrow> clip_inplace h1 clip_from clip_at vs)"
| "clip_inplace h clip_from clip_at (Array t # vs) = (h, Some (AttributeError ''assign''))"

fun clip_collect :: "heap \<Rightarrow> real \<Rightarrow> real \<Rightarrow> tensor list \<Rightarrow> array_like list \<Rightarrow> tensor list" where
  "clip_collect h clip_from clip_at r [] = r"
| "clip_collect h clip_from clip_at r (v # vs) =
     clip_collect h clip_from clip_at (r @ [clip_by_value (read h v) clip_from clip_at]) vs"

text \<open>
  \<^verbatim>\<open>clip_many\<close>: the heap it leaves and what it returns (\<^verbatim>\<open>None\<close> in place, the list
  \<open>r\<close> otherwise) or the exception raised.
\<close>

definition clip_many ::
  "heap \<Rightarrow> array_like list \<Rightarrow> real \<Rightarrow> real option \<Rightarrow> bool \<Rightarrow> heap \<times> (error + tensor list option)" where
  "clip_many h values clip_at clip_from inplace =
     (let clip_from = (case clip_from of None \<Rightarrow> - clip_at | Some c \<Rightarrow> c)
      in if inplace
         then (case clip_inplace h clip_from clip_at values of
                 (h1, Some e) \<Rightarrow> (h1, Inl e)
               | (h1, None) \<Rightarrow> (h1, Inr None))
         else (h, Inr (Some (clip_collect h clip_from clip_at [] values))))"


section \<open>Optimizer persistence\<close>

text \<open>
  The state of an optimizer is its list of arrays. \<^verbatim>\<open>optimizer.set_weights\<close> belongs to
  the framework: it raises \<^verbatim>\<open>ValueError\<close> when the number of arrays differs from the
  optimizer's, returns at once when the optimizer has none, raises \<^verbatim>\<open>ValueError\<close> when a
  shape differs, and only then assigns. It returns the error raised, if any, and the state
  it leaves. A pickle file written by \<^verbatim>\<open>save_optimizer\<close> holds a list of arrays.
\<close>

record optimizer =
  opt_weights :: "array list"

definition set_weights :: "optimizer \<Rightarrow> array list \<Rightarrow> error option \<times> optimizer" where
  "set_weights opt ws =
     (let params = opt_weights opt
      in if length params \<noteq> length ws then (Some (ValueError ''length mismatch''), opt)
         else if params = [] then (None, opt)
         else if map fst params \<noteq> map fst ws then (Some (ValueError ''shape mismatch''), opt)
         else (None, opt\<lparr>opt_weights := ws\<rparr>))"

text \<open>
  \<^verbatim>\<open>update_optimizer\<close>: the exception that leaves the function, if any, the optimizer and
  the printed lines. A path holds no file, a file that \<^verbatim>\<open>pickle.load\<close> cannot read, with
  the exception it raises, or a pickled list of arrays. Only the \<^verbatim>\<open>ValueError\<close> of
  \<^verbatim>\<open>set_weights\<close> is caught.
\<close>

definition update_optimizer ::
  "(string \<rightharpoonup> error + array list) \<Rightarrow> optimizer \<Rightarrow> string
     \<Rightarrow> error option \<times> optimizer \<times> line list" where
  "update_optimizer fs opt path =
     (case fs path of
        None \<Rightarrow> (Some (FileNotFoundError path), opt, [])
      | Some (Inl e) \<Rightarrow> (Some e, opt, [])
      | Some (Inr ws) \<Rightarrow>
          (case set_weights opt ws of
             (None, opt1) \<Rightarrow> (None, opt1, [])
           | (Some (ValueError e), opt1) \<Rightarrow>
               (None, opt1, [WarningEmptyOptimizer, PrintedError (ValueError e)])
           | (Some e, opt1) \<Rightarrow> (Some e, opt1, [])))"

section \<open>Example inputs\<close>

text \<open>
  A heap of five variables: two of a convolution, two of a dense layer, and one of another
  dtype.
\<close>

definition ex_heap :: heap where
  "ex_heap =
     \<lparr>var = (\<lambda>a. if a = 0 then \<lparr>shape = [2], dtype = float32, val = [Number 1, Number (- 2)],
                                 name = ''conv/kernel''\<rparr>
                else if a = 1 then \<lparr>shape = [1], dtype = float32, val = [Number 3],
                                      name = ''conv/bias''\<rparr>
                else if a = 2 then \<lparr>shape = [2], dtype = float32, val = [Number 5, Number 7],
                                      name = ''dense/kernel''\<rparr>
                else if a = 3 then \<lparr>shape = [3], dtype = float32, val = [Number 0, Number 0, Number 9],
                                      name = ''dense/bias''\<rparr>
                else \<lparr>shape = [2], dtype = float64, val = [NaN, Number 4],
                      name = ''head/kernel''\<rparr>),
      allocated = 5\<rparr>"

text \<open>A file system with one checkpoint of the convolution's two weights.\<close>

definition ex_files :: "string \<rightharpoonup> array list" where
  "ex_files = [''ckp'' \<mapsto> [([2], [Number 9, Number 9]), ([1], [Number 8])]]"

section \<open>Properties of the checkpointing callback\<close>

lemma on_epoch_end_succeeding:
  assumes "\<forall>p. epoch2path self (e + 1) = Some p \<longrightarrow> save_model_raises env p = None"
    and "\<forall>p. epoch2path_optim self (e + 1) = Some p \<longrightarrow> save_optimizer_raises env p = None"
  shows "on_epoch_end env self e =
           (self\<lparr>created_model_ckp := created_model_ckp self @
                    (case epoch2path self (e + 1) of Some p \<Rightarrow> [p] | None \<Rightarrow> []),
                 created_optim_ckp := created_optim_ckp self @
                    (case epoch2path_optim self (e + 1) of Some p \<Rightarrow> [p] | None \<Rightarrow> [])\<rparr>,
            (case epoch2path self (e + 1) of Some p \<Rightarrow> [SaveModel p] | None \<Rightarrow> []) @
            (case epoch2path_optim self (e + 1) of Some p \<Rightarrow> [SaveOptimizer p] | None \<Rightarrow> []),
            None)"
proof -
  have m: "save_model env p = ([SaveModel p], None)" if "epoch2path self (e + 1) = Some p" for p
    using assms(1) that by (simp add: save_model_def)
  have o: "save_optimizer env p = ([SaveOptimizer p], None)"
    if "epoch2path_optim self (e + 1) = Some p" for p
    using assms(2) that by (simp add: save_optimizer_def)
  show ?thesis
    by (cases "epoch2path self (e + 1)"; cases "epoch2path_optim self (e + 1)")
       (simp_all add: on_epoch_end_def Let_def m o)
qed

lemma saves_of_one_call:
  "model_saves_for (map (Pair (int n))
       ((case f (int n + 1) of Some p \<Rightarrow> [SaveModel p] | None \<Rightarrow> []) @
        (case g (int n + 1) of Some p \<Rightarrow> [SaveOptimizer p] | None \<Rightarrow> []))) k =
     (if k = int n + 1 then (case f k of Some p \<Rightarrow> [SaveModel p] | None \<Rightarrow> []) else [])"
  "optim_saves_for (map (Pair (int n))
       ((case f (int n + 1) of Some p \<Rightarrow> [SaveModel p] | None \<Rightarrow> []) @
        (case g (int n + 1) of Some p \<Rightarrow> [SaveOptimizer p] | None \<Rightarrow> []))) k =
     (if k = int n + 1 then (case g k of Some p \<Rightarrow> [SaveOptimizer p] | None \<Rightarrow> []) else [])"
  by (auto simp: model_saves_for_def optim_saves_for_def split: option.splits)

lemma saves_append:
  "model_saves_for (xs @ ys) k = model_saves_for xs k @ model_saves_for ys k"
  "optim_saves_for (xs @ ys) k = optim_saves_for xs k @ optim_saves_for ys k"
  by (simp_all add: model_saves_for_def optim_saves_for_def)

lemma map_filter_keys_step:
  "List.map_filter f (map int [1..<Suc (Suc n)]) =
     List.map_filter f (map int [1..<Suc n]) @ (case f (int n + 1) of Some p \<Rightarrow> [p] | None \<Rightarrow> [])"
  by (simp add: List.map_filter_def add.commute split: option.splits)

lemma run_epochs_succeeding:
  "(\<forall>k p. 1 \<le> k \<and> k \<le> int E \<and> epoch2path self k = Some p
            \<longrightarrow> save_model_raises env p = None) \<Longrightarrow>
   (\<forall>k p. 1 \<le> k \<and> k \<le> int E \<and> epoch2path_optim self k = Some p
            \<longrightarrow> save_optimizer_raises env p = None) \<Longrightarrow>
   \<exists>self' acts.
           run_epochs env self E = (self', acts, None) \<and>
           epoch2path self' = epoch2path self \<and>
           epoch2path_optim self' = epoch2path_optim self \<and>
           created_model_ckp self' =
             created_model_ckp self @ List.map_filter (epoch2path self) (map int [1..<Suc E]) \<and>
           created_optim_ckp self' =
             created_optim_ckp self @ List.map_filter (epoch2path_optim self) (map int [1..<Suc E]) \<and>
           (\<forall>k. model_saves_for acts k =
                  (case epoch2path self k of
                     Some p \<Rightarrow> if 1 \<le> k \<and> k \<le> int E then [SaveModel p] else []
                   | None \<Rightarrow> [])) \<and>
           (\<forall>k. optim_saves_for acts k =
                  (case epoch2path_optim self k of
                     Some p \<Rightarrow> if 1 \<le> k \<and> k \<le> int E then [SaveOptimizer p] else []
                   | None \<Rightarrow> []))"
proof (induction E)
  case 0
  show ?case
    by (auto simp: List.map_filter_simps model_saves_for_def optim_saves_for_def
             split: option.splits)
next
  case (Suc n)
  note m = Suc.prems(1) and o = Suc.prems(2)
  have mn: "\<forall>k p. 1 \<le> k \<and> k \<le> int n \<and> epoch2path self k = Some p
              \<longrightarrow> save_model_raises env p = None"
  proof (intro allI impI)
    fix k p assume "1 \<le> k \<and> k \<le> int n \<and> epoch2path self k = Some p"
    then have "1 \<le> k \<and> k \<le> int (Suc n) \<and> epoch2path self k = Some p" by simp
    with m show "save_model_raises env p = None" by blast
  qed
  have on: "\<forall>k p. 1 \<le> k \<and> k \<le> int n \<and> epoch2path_optim self k = Some p
              \<longrightarrow> save_optimizer_raises env p = None"
  proof (intro allI impI)
    fix k p assume "1 \<le> k \<and> k \<le> int n \<and> epoch2path_optim self k = Some p"
    then have "1 \<le> k \<and> k \<le> int (Suc n) \<and> epoch2path_optim self k = Some p" by simp
    with o show "save_optimizer_raises env p = None" by blast
  qed
  from Suc.IH [OF mn on] obtain s1 acts where r: "run_epochs env self n = (s1, acts, None)"
    and e1: "epoch2path s1 = epoch2path self" and e2: "epoch2path_optim s1 = epoch2path_optim self"
    and c1: "created_model_ckp s1 =
               created_model_ckp self @ List.map_filter (epoch2path self) (map int [1..<Suc n])"
    and c2: "created_optim_ckp s1 =
               created_optim_ckp self @ List.map_filter (epoch2path_optim self) (map int [1..<Suc n])"
    and a1: "\<And>k. model_saves_for acts k =
                  (case epoch2path self k of
                     Some p \<Rightarrow> if 1 \<le> k \<and> k \<le> int n then [SaveModel p] else []
                   | None \<Rightarrow> [])"
    and a2: "\<And>k. optim_saves_for acts k =
                  (case epoch2path_optim self k of
                     Some p \<Rightarrow> if 1 \<le> k \<and> k \<le> int n then [SaveOptimizer p] else []
                   | None \<Rightarrow> [])"
    by blast
  let ?ios = "(case epoch2path self (int n + 1) of Some p \<Rightarrow> [SaveModel p] | None \<Rightarrow> []) @
              (case epoch2path_optim self (int n + 1) of Some p \<Rightarrow> [SaveOptimizer p] | None \<Rightarrow> [])"
  let ?s2 = "s1\<lparr>created_model_ckp := created_model_ckp s1 @
                    (case epoch2path self (int n + 1) of Some p \<Rightarrow> [p] | None \<Rightarrow> []),
                 created_optim_ckp := created_optim_ckp s1 @
                    (case epoch2path_optim self (int n + 1) of Some p \<Rightarrow> [p] | None \<Rightarrow> [])\<rparr>"
  have m1: "\<forall>p. epoch2path s1 (int n + 1) = Some p \<longrightarrow> save_model_raises env p = None"
  proof (intro allI impI)
    fix p assume "epoch2path s1 (int n + 1) = Some p"
    with e1 have "1 \<le> int n + 1 \<and> int n + 1 \<le> int (Suc n) \<and> epoch2path self (int n + 1) = Some p"
      by simp
    with m show "save_model_raises env p = None" by blast
  qed
  have o1: "\<forall>p. epoch2path_optim s1 (int n + 1) = Some p \<longrightarrow> save_optimizer_raises env p = None"
  proof (intro allI impI)
    fix p assume "epoch2path_optim s1 (int n + 1) = Some p"
    with e2
    have "1 \<le> int n + 1 \<and> int n + 1 \<le> int (Suc n) \<and> epoch2path_optim self (int n + 1) = Some p"
      by simp
    with o show "save_optimizer_raises env p = None" by blast
  qed
  have h: "on_epoch_end env s1 (int n) = (?s2, ?ios, None)"
    using on_epoch_end_succeeding [OF m1 o1] e1 e2 by simp
  have run: "run_epochs env self (Suc n) = (?s2, acts @ map (Pair (int n)) ?ios, None)"
    using r h by simp
  have ms: "model_saves_for (acts @ map (Pair (int n)) ?ios) k =
                  (case epoch2path self k of
                     Some p \<Rightarrow> if 1 \<le> k \<and> k \<le> int (Suc n) then [SaveModel p] else []
                   | None \<Rightarrow> [])" for k
    unfolding saves_append saves_of_one_call a1 by (auto split: option.splits)
  have os: "optim_saves_for (acts @ map (Pair (int n)) ?ios) k =
                  (case epoch2path_optim self k of
                     Some p \<Rightarrow> if 1 \<le> k \<and> k \<le> int (Suc n) then [SaveOptimizer p] else []
                   | None \<Rightarrow> [])" for k
    unfolding saves_append saves_of_one_call a2 by (auto split: option.splits)
  have cm: "created_model_ckp ?s2 =
             created_model_ckp self @ List.map_filter (epoch2path self) (map int [1..<Suc (Suc n)])"
    unfolding map_filter_keys_step using c1 by simp
  have co: "created_optim_ckp ?s2 =
             created_optim_ckp self @
               List.map_filter (epoch2path_optim self) (map int [1..<Suc (Suc n)])"
    unfolding map_filter_keys_step using c2 by simp
  have em: "epoch2path ?s2 = epoch2path self" "epoch2path_optim ?s2 = epoch2path_optim self"
    using e1 e2 by simp_all
  from run em cm co ms os show ?case by blast
qed

text \<open>
  C1, as amended. When no save to a path stored under a key from 1 to \<open>E\<close> raises, a run
  of \<open>E\<close> epochs (hook calls with indices \<open>0, \<dots>, E - 1\<close>) ends without an exception; the callback
  saves the model exactly once for every key \<open>k\<close> of \<^verbatim>\<open>epoch2path\<close> with \<open>1 \<le> k \<le> E\<close>,
  to the path stored under \<open>k\<close>, and makes no model save for any other \<open>k\<close>: not for a key
  absent from the dictionary, and not for a key below 1 or above \<open>E\<close>. The same holds for
  optimizer saves and \<^verbatim>\<open>epoch2path_optim\<close>. The two lists of created checkpoints grow by
  exactly these paths, in the order of the keys.
\<close>

theorem checkpoint_saves_once_per_reached_key:
  "(\<forall>k p. 1 \<le> k \<and> k \<le> int E \<and> epoch2path self k = Some p
           \<longrightarrow> save_model_raises env p = None) \<and>
   (\<forall>k p. 1 \<le> k \<and> k \<le> int E \<and> epoch2path_optim self k = Some p
           \<longrightarrow> save_optimizer_raises env p = None) \<longrightarrow>
     (case run_epochs env self E of
        (self', acts, raised) \<Rightarrow>
          raised = None \<and>
          model_saves_for acts k =
            (case epoch2path self k of
               Some p \<Rightarrow> if 1 \<le> k \<and> k \<le> int E then [SaveModel p] else []
             | None \<Rightarrow> []) \<and>
          optim_saves_for acts k =
            (case epoch2path_optim self k of
               Some p \<Rightarrow> if 1 \<le> k \<and> k \<le> int E then [SaveOptimizer p] else []
             | None \<Rightarrow> []) \<and>
          created_model_ckp self' =
            created_model_ckp self @ List.map_filter (epoch2path self) (map int [1..<Suc E]) \<and>
          created_optim_ckp self' =
            created_optim_ckp self @ List.map_filter (epoch2path_optim self) (map int [1..<Suc E]))"
proof
  assume a: "(\<forall>k p. 1 \<le> k \<and> k \<le> int E \<and> epoch2path self k = Some p
           \<longrightarrow> save_model_raises env p = None) \<and>
   (\<forall>k p. 1 \<le> k \<and> k \<le> int E \<and> epoch2path_optim self k = Some p
           \<longrightarrow> save_optimizer_raises env p = None)"
  from run_epochs_succeeding [OF a [THEN conjunct1] a [THEN conjunct2]]
  obtain self' acts where "run_epochs env self E = (self', acts, None)"
    "created_model_ckp self' =
       created_model_ckp self @ List.map_filter (epoch2path self) (map int [1..<Suc E])"
    "created_optim_ckp self' =
       created_optim_ckp self @ List.map_filter (epoch2path_optim self) (map int [1..<Suc E])"
    "model_saves_for acts k =
       (case epoch2path self k of
          Some p \<Rightarrow> if 1 \<le> k \<and> k \<le> int E then [SaveModel p] else []
        | None \<Rightarrow> [])"
    "optim_saves_for acts k =
       (case epoch2path_optim self k of
          Some p \<Rightarrow> if 1 \<le> k \<and> k \<le> int E then [SaveOptimizer p] else []
        | None \<Rightarrow> [])"
    by blast
  then show "case run_epochs env self E of
        (self', acts, raised) \<Rightarrow>
          raised = None \<and>
          model_saves_for acts k =
            (case epoch2path self k of
               Some p \<Rightarrow> if 1 \<le> k \<and> k \<le> int E then [SaveModel p] else []
             | None \<Rightarrow> []) \<and>
          optim_saves_for acts k =
            (case epoch2path_optim self k of
               Some p \<Rightarrow> if 1 \<le> k \<and> k \<le> int E then [SaveOptimizer p] else []
             | None \<Rightarrow> []) \<and>
          created_model_ckp self' =
            created_model_ckp self @ List.map_filter (epoch2path self) (map int [1..<Suc E]) \<and>
          created_optim_ckp self' =
            created_optim_ckp self @ List.map_filter (epoch2path_optim self) (map int [1..<Suc E])"
    by simp
qed

text \<open>
  An instance of the amended C1: keys 2 and 3 of the model dictionary and key 1 of the
  optimizer dictionary are reached in a run of three epochs; the save that would fail, to the
  empty path under key 7, is not reached.
\<close>

theorem checkpoint_saves_once_per_reached_key_witness:
  "(case run_epochs ex_env
           (init_callback [2 \<mapsto> ''m2'', 3 \<mapsto> ''m3'', 7 \<mapsto> []] [1 \<mapsto> ''o1'']) 3 of
      (self', acts, raised) \<Rightarrow>
        raised = None \<and>
        model_saves_for acts 2 = [SaveModel ''m2''] \<and>
        optim_saves_for acts 2 = [] \<and>
        created_model_ckp self' = [''m2'', ''m3''] \<and>
        created_optim_ckp self' = [''o1''])"
proof -
  let ?self = "init_callback [2 \<mapsto> ''m2'', 3 \<mapsto> ''m3'', 7 \<mapsto> []] [1 \<mapsto> ''o1'']"
  have hyp: "(\<forall>k p. 1 \<le> k \<and> k \<le> int 3 \<and> epoch2path ?self k = Some p
                 \<longrightarrow> save_model_raises ex_env p = None) \<and>
     (\<forall>k p. 1 \<le> k \<and> k \<le> int 3 \<and> epoch2path_optim ?self k = Some p
                 \<longrightarrow> save_optimizer_raises ex_env p = None)"
    by (auto simp: init_callback_def ex_env_def split: if_splits)
  have keys: "List.map_filter [2 \<mapsto> ''m2'', 3 \<mapsto> ''m3'', 7 \<mapsto> []] (map int [1..<Suc 3])
                = [''m2'', ''m3'']"
    "List.map_filter [1 \<mapsto> ''o1''] (map int [1..<Suc 3]) = [''o1'']"
    by (simp_all add: List.map_filter_def upt_rec)
  note t = checkpoint_saves_once_per_reached_key
      [where self = ?self and env = ex_env and E = 3 and k = 2, THEN mp, OF hyp]
  show ?thesis
  proof (cases "run_epochs ex_env ?self 3")
    case (fields self' acts raised)
    from t [unfolded fields prod.case] keys show ?thesis
      unfolding fields prod.case by (simp add: init_callback_def)
  qed
qed

text \<open>
  C1 as stated fails. In a run of three epochs the keys 0 and 5 are present in the model
  dictionary, and key 5 in the optimizer dictionary, yet no save is made for them; only key
  2 is saved. And when the model save of a key raises, the optimizer save of the same key,
  present in its dictionary, is never made and no path is recorded.
\<close>

theorem checkpoint_unreached_key_counterexample:
  "0 \<in> dom [0 \<mapsto> ''m0'', 2 \<mapsto> ''m2'', 5 \<mapsto> ''m5''] \<and>
   5 \<in> dom [0 \<mapsto> ''m0'', 2 \<mapsto> ''m2'', 5 \<mapsto> ''m5''] \<and>
   5 \<in> dom [5 \<mapsto> ''o5''] \<and>
   run_epochs ex_env (init_callback [0 \<mapsto> ''m0'', 2 \<mapsto> ''m2'', 5 \<mapsto> ''m5''] [5 \<mapsto> ''o5'']) 3
     = (init_callback [0 \<mapsto> ''m0'', 2 \<mapsto> ''m2'', 5 \<mapsto> ''m5''] [5 \<mapsto> ''o5'']
          \<lparr>created_model_ckp := [''m2'']\<rparr>,
        [(1, SaveModel ''m2'')], None) \<and>
   1 \<in> dom [1 \<mapsto> ''o1''] \<and>
   run_epochs ex_env (init_callback [1 \<mapsto> []] [1 \<mapsto> ''o1'']) 1
     = (init_callback [1 \<mapsto> []] [1 \<mapsto> ''o1''], [], Some (OSError []))"
  by (simp add: numeral_3_eq_3 on_epoch_end_def init_callback_def save_model_def
        save_optimizer_def ex_env_def)

section \<open>Properties of the fail-fast lookups\<close>

text \<open>
  C7. For every precision other than 16, 32 and 64, \<^verbatim>\<open>set_precision\<close> raises
  \<^verbatim>\<open>NameError\<close> and leaves the global policy as it was; for every alias other than
  \<^verbatim>\<open>'crossentropy'\<close>, \<^verbatim>\<open>get_loss_fn_from_alias\<close> raises \<^verbatim>\<open>NotImplementedError\<close>.
\<close>

theorem unknown_precision_or_alias_raises:
  "(precision \<noteq> 16 \<and> precision \<noteq> 32 \<and> precision \<noteq> 64 \<longrightarrow>
      fst (set_precision precision g) = Inl (NameError precision) \<and>
      policy (snd (set_precision precision g)) = policy g) \<and>
   (alias \<noteq> ''crossentropy'' \<longrightarrow>
      get_loss_fn_from_alias alias = Inl (NotImplementedError alias))"
  by (simp add: set_precision_def get_loss_fn_from_alias_def Let_def)

theorem unknown_precision_or_alias_raises_witness:
  "(8::int) \<noteq> 16 \<and> (8::int) \<noteq> 32 \<and> (8::int) \<noteq> 64 \<and>
   fst (set_precision 8 \<lparr>policy = Some ''float32'', stdout = []\<rparr>) = Inl (NameError 8) \<and>
   policy (snd (set_precision 8 \<lparr>policy = Some ''float32'', stdout = []\<rparr>)) = Some ''float32'' \<and>
   ''mse'' \<noteq> ''crossentropy'' \<and>
   get_loss_fn_from_alias ''mse'' = Inl (NotImplementedError ''mse'')"
  using unknown_precision_or_alias_raises
          [of 8 "\<lparr>policy = Some ''float32'', stdout = []\<rparr>" "''mse''"]
  by simp

section \<open>Properties of the model factory\<close>

text \<open>
  C6. When the dataset name is none of \<^verbatim>\<open>'cifar'\<close>, \<^verbatim>\<open>'cifar10'\<close>, \<^verbatim>\<open>'cifar100'\<close>,
  \<^verbatim>\<open>'mnist'\<close> and \<^verbatim>\<open>input_shape\<close> or \<^verbatim>\<open>n_classes\<close> is \<^verbatim>\<open>None\<close>, the factory fails with
  an assertion error, whatever the other arguments are.
\<close>

theorem factory_asserts_shape_and_classes:
  assumes "dataset \<notin> {Some ''cifar'', Some ''cifar10'', Some ''cifar100'', Some ''mnist''}"
    and "input_shape = None \<or> n_classes = None"
  shows "ResNetStiff dataset alias input_shape n_classes features BLOCKS_IN_GROUP
           = Inl AssertionError"
  using assms by (auto simp: ResNetStiff_def split: option.splits)

theorem factory_asserts_shape_and_classes_witness:
  "Some ''imagenet'' \<notin> {Some ''cifar'', Some ''cifar10'', Some ''cifar100'', Some ''mnist''} \<and>
   ResNetStiff (Some ''imagenet'') None (Some [224, 224, 3]) None
     (Tup [Num 16, Num 32, Num 64]) 3 = Inl AssertionError"
proof -
  have d: "Some ''imagenet'' \<notin> {Some ''cifar'', Some ''cifar10'', Some ''cifar100'', Some ''mnist''}"
    by simp
  have n: "Some [224, 224, 3::nat] = None \<or> (None :: (nat list + nat) option) = None" by simp
  from factory_asserts_shape_and_classes [OF d n] d show ?thesis by simp
qed

section \<open>Properties of assignment and copying\<close>

lemma var_store: "var (store h w v) a = (if a = w then (var h w)\<lparr>val := v\<rparr> else var h a)"
  by (simp add: store_def)

lemma allocated_store: "allocated (store h w v) = allocated h"
  by (simp add: store_def)

lemma shape_store: "shape (var (store h w v) a) = shape (var h a)"
  by (simp add: store_def)

lemma dtype_store: "dtype (var (store h w v) a) = dtype (var h a)"
  by (simp add: store_def)

lemma name_store: "name (var (store h w v) a) = name (var h a)"
  by (simp add: store_def)

lemma assign_Inr: "assign h w t = Inr h1 \<Longrightarrow> h1 = store h w (val t)"
  by (simp add: assign_def split: if_splits)

lemma assign_same_kind:
  "dtype t = dtype (var h w) \<Longrightarrow> shape t = shape (var h w) \<Longrightarrow> assign h w t = Inr (store h w (val t))"
  by (simp add: assign_def)

lemma assign_dtype: "dtype t \<noteq> dtype (var h w) \<Longrightarrow> assign h w t = Inl (ValueError ''dtype'')"
  by (simp add: assign_def)

lemma set_all_pairs_frame:
  "a \<notin> fst ` set ps \<Longrightarrow> var (fst (set_all_pairs h out ps)) a = var h a"
  by (induction h out ps rule: set_all_pairs.induct)
     (auto simp: var_store split: sum.splits dest!: assign_Inr)

lemma set_all_pairs_shape:
  "shape (var (fst (set_all_pairs h out ps)) a) = shape (var h a)"
  by (induction h out ps rule: set_all_pairs.induct)
     (auto simp: shape_store split: sum.splits dest!: assign_Inr)

lemma set_all_pairs_dtype:
  "dtype (var (fst (set_all_pairs h out ps)) a) = dtype (var h a)"
  by (induction h out ps rule: set_all_pairs.induct)
     (auto simp: dtype_store split: sum.splits dest!: assign_Inr)

lemma set_all_pairs_name:
  "name (var (fst (set_all_pairs h out ps)) a) = name (var h a)"
  by (induction h out ps rule: set_all_pairs.induct)
     (auto simp: name_store split: sum.splits dest!: assign_Inr)

lemma set_all_pairs_allocated:
  "allocated (fst (set_all_pairs h out ps)) = allocated h"
  by (induction h out ps rule: set_all_pairs.induct)
     (auto simp: allocated_store split: sum.splits dest!: assign_Inr)


lemma pair_facts_store:
  "mismatch (store h w v) = mismatch h"
  "warning_for (store h w v) = warning_for h"
  "dtype_conflict (store h w v) = dtype_conflict h"
  by (auto simp: mismatch_def warning_for_def dtype_conflict_def shape_store name_store
        dtype_store fun_eq_iff)

lemma set_all_pairs_out_prefix:
  "\<exists>k \<le> length ps.
      fst (snd (set_all_pairs h out ps)) = out @ map (warning_for h) (filter (mismatch h) (take k ps))"
proof (induction h out ps rule: set_all_pairs.induct)
  case (1 h out)
  show ?case by simp
next
  case (2 h out w1 w2 ps)
  show ?case
  proof (cases "shape (var h w1) = shape (var h w2)")
    case True
    note same = True
    show ?thesis
    proof (cases "assign h w1 (var h w2)")
      case (Inl e)
      with same have "fst (snd (set_all_pairs h out ((w1, w2) # ps))) =
          out @ map (warning_for h) (filter (mismatch h) (take 0 ((w1, w2) # ps)))" by simp
      then show ?thesis by blast
    next
      case (Inr h1)
      from "2.IH"(1) [OF same Inr] obtain k where k: "k \<le> length ps"
        "fst (snd (set_all_pairs h1 out ps)) =
           out @ map (warning_for h1) (filter (mismatch h1) (take k ps))" by blast
      from assign_Inr [OF Inr] have h1: "h1 = store h w1 (val (var h w2))" .
      have "fst (snd (set_all_pairs h out ((w1, w2) # ps))) =
          out @ map (warning_for h) (filter (mismatch h) (take (Suc k) ((w1, w2) # ps)))"
        using same Inr k(2) by (simp add: h1 pair_facts_store mismatch_def)
      with k(1) show ?thesis by (intro exI [of _ "Suc k"]) simp
    qed
  next
    case False
    from "2.IH"(2) [OF False] obtain k where k: "k \<le> length ps"
      "fst (snd (set_all_pairs h
          (out @ [WarningSkipping (name (var h w1)) (shape (var h w1)) (shape (var h w2))]) ps)) =
         (out @ [WarningSkipping (name (var h w1)) (shape (var h w1)) (shape (var h w2))]) @
           map (warning_for h) (filter (mismatch h) (take k ps))" by blast
    have "fst (snd (set_all_pairs h out ((w1, w2) # ps))) =
          out @ map (warning_for h) (filter (mismatch h) (take (Suc k) ((w1, w2) # ps)))"
      using False k(2) by (simp add: mismatch_def warning_for_def)
    with k(1) show ?thesis by (intro exI [of _ "Suc k"]) simp
  qed
qed

lemma set_all_pairs_out:
  "snd (snd (set_all_pairs h out ps)) = None \<Longrightarrow>
   fst (snd (set_all_pairs h out ps)) = out @ map (warning_for h) (filter (mismatch h) ps)"
proof (induction h out ps rule: set_all_pairs.induct)
  case (1 h out)
  show ?case by simp
next
  case (2 h out w1 w2 ps)
  show ?case
  proof (cases "shape (var h w1) = shape (var h w2)")
    case True
    note same = True
    show ?thesis
    proof (cases "assign h w1 (var h w2)")
      case (Inl e)
      with same "2.prems" show ?thesis by simp
    next
      case (Inr h1)
      from assign_Inr [OF Inr] have h1: "h1 = store h w1 (val (var h w2))" .
      from "2.prems" same Inr have "snd (snd (set_all_pairs h1 out ps)) = None" by simp
      from "2.IH"(1) [OF same Inr this] same Inr show ?thesis
        by (simp add: h1 pair_facts_store mismatch_def)
    qed
  next
    case False
    with "2.prems" have "snd (snd (set_all_pairs h
          (out @ [WarningSkipping (name (var h w1)) (shape (var h w1)) (shape (var h w2))]) ps)) = None"
      by simp
    from "2.IH"(2) [OF False this] False show ?thesis
      by (simp add: mismatch_def warning_for_def)
  qed
qed

lemma set_all_pairs_returns:
  "\<forall>p \<in> set ps. \<not> dtype_conflict h p \<Longrightarrow> snd (snd (set_all_pairs h out ps)) = None"
proof (induction h out ps rule: set_all_pairs.induct)
  case (1 h out)
  show ?case by simp
next
  case (2 h out w1 w2 ps)
  show ?case
  proof (cases "shape (var h w1) = shape (var h w2)")
    case True
    with "2.prems" have dt: "dtype (var h w2) = dtype (var h w1)"
      by (simp add: dtype_conflict_def)
    from True have sh: "shape (var h w2) = shape (var h w1)" by simp
    let ?h1 = "store h w1 (val (var h w2))"
    have a: "assign h w1 (var h w2) = Inr ?h1" by (rule assign_same_kind [OF dt sh])
    from "2.prems" have "\<forall>p \<in> set ps. \<not> dtype_conflict ?h1 p" by (simp add: pair_facts_store)
    from "2.IH"(1) [OF True a this] True a show ?thesis by simp
  next
    case False
    from "2.prems" have "\<forall>p \<in> set ps. \<not> dtype_conflict h p" by simp
    from "2.IH"(2) [OF False this] False show ?thesis by simp
  qed
qed

lemma set_all_pairs_val:
  "distinct (map fst ps) \<Longrightarrow> fst ` set ps \<inter> snd ` set ps = {} \<Longrightarrow>
   \<forall>p \<in> set ps. \<not> dtype_conflict h p \<Longrightarrow> (w1, w2) \<in> set ps \<Longrightarrow>
   val (var (fst (set_all_pairs h out ps)) w1) =
     (if shape (var h w1) = shape (var h w2) then val (var h w2) else val (var h w1))"
proof (induction h out ps rule: set_all_pairs.induct)
  case (1 h out)
  then show ?case by simp
next
  case (2 h out a b ps)
  from "2.prems" have d: "distinct (map fst ps)" "fst ` set ps \<inter> snd ` set ps = {}"
    and a: "a \<notin> fst ` set ps" "a \<notin> snd ` set ps" "a \<noteq> b"
    and nc: "\<forall>p \<in> set ps. \<not> dtype_conflict h p" and nc0: "\<not> dtype_conflict h (a, b)"
    by auto
  let ?h1 = "store h a (val (var h b))"
  have as: "assign h a (var h b) = Inr ?h1" if "shape (var h a) = shape (var h b)"
    using that nc0 by (intro assign_same_kind) (simp_all add: dtype_conflict_def)
  have nc1: "\<forall>p \<in> set ps. \<not> dtype_conflict ?h1 p" using nc by (simp add: pair_facts_store)
  show ?case
  proof (cases "(w1, w2) = (a, b)")
    case True
    then show ?thesis using a as
      by (auto simp: set_all_pairs_frame var_store)
  next
    case False
    with "2.prems"(4) have mem: "(w1, w2) \<in> set ps" by auto
    then have ne: "w1 \<noteq> a" "w2 \<noteq> a" using a by (force simp: image_iff)+
    show ?thesis
    proof (cases "shape (var h a) = shape (var h b)")
      case True
      from "2.IH"(1) [OF True as [OF True] d nc1 mem] ne True as [OF True] show ?thesis
        by (simp add: var_store)
    next
      case False
      from "2.IH"(2) [OF False d nc mem] False show ?thesis by simp
    qed
  qed
qed

section \<open>Properties of cloning\<close>

lemma keras_clone_model_props:
  assumes "keras_clone_model init h m = Inr (h1, c)"
  shows "weights c = [allocated h ..< allocated h + length (weights m)]"
    and "kind c = kind m"
    and "allocated h1 = allocated h + length (weights m)"
    and "\<And>a. a < allocated h \<Longrightarrow> var h1 a = var h a"
    and "\<And>i. i < length (weights m) \<Longrightarrow>
           var h1 (allocated h + i) = (var h (weights m ! i))\<lparr>val := init i\<rparr>"
  using assms by (auto simp: keras_clone_model_def Let_def split: if_splits)

lemma keras_clone_model_returns:
  "kind m \<noteq> Subclassed \<Longrightarrow> \<exists>h1 c. keras_clone_model init h m = Inr (h1, c)"
  by (simp add: keras_clone_model_def Let_def)

lemma clone_model_props:
  assumes al: "\<forall>a \<in> set (weights m). a < allocated h" and kd: "kind m \<noteq> Subclassed"
  shows "\<exists>h2 c. clone_model init h m = (h2, [], Inr c) \<and>
           weights c = [allocated h ..< allocated h + length (weights m)] \<and>
           kind c = kind m \<and>
           allocated h2 = allocated h + length (weights m) \<and>
           (\<forall>a < allocated h. var h2 a = var h a) \<and>
           (\<forall>i < length (weights m). var h2 (allocated h + i) = var h (weights m ! i))"
proof -
  let ?b = "allocated h" and ?n = "length (weights m)"
  from keras_clone_model_returns [OF kd] obtain h1 c
    where k: "keras_clone_model init h m = Inr (h1, c)" by blast
  note kp = keras_clone_model_props [OF k]
  let ?ps = "zip (weights c) (weights m)"
  let ?r = "set_all_pairs h1 [] ?ps"
  have fsts: "map fst ?ps = [?b ..< ?b + ?n]" and snds: "map snd ?ps = weights m"
    using kp(1) by simp_all
  have fset: "fst ` set ?ps = {?b ..< ?b + ?n}"
    using fsts by (metis set_map set_upt)
  have sset: "snd ` set ?ps = set (weights m)"
    using snds by (metis set_map)
  have dis: "distinct (map fst ?ps)" using fsts by simp
  have disj: "fst ` set ?ps \<inter> snd ` set ?ps = {}"
    unfolding fset sset using al by fastforce
  have same: "shape (var h1 (fst p)) = shape (var h1 (snd p)) \<and>
              dtype (var h1 (fst p)) = dtype (var h1 (snd p))" if "p \<in> set ?ps" for p
  proof -
    from that obtain i where i: "i < ?n" and p: "p = (?b + i, weights m ! i)"
      unfolding kp(1) by (auto simp: set_zip)
    from i al have "weights m ! i < ?b" by simp
    then show ?thesis using p kp(4) kp(5) [OF i] by simp
  qed
  have nc: "\<forall>p \<in> set ?ps. \<not> dtype_conflict h1 p"
    using same by (simp add: dtype_conflict_def)
  have ret: "snd (snd ?r) = None" by (rule set_all_pairs_returns [OF nc])
  have out: "fst (snd ?r) = []"
    using set_all_pairs_out [OF ret] same by (simp add: mismatch_def filter_empty_conv)
  let ?h2 = "fst ?r"
  obtain h2 where r: "?r = (h2, [], None)" using ret out by (cases ?r) auto
  have h2: "fst ?r = h2" using r by simp
  have cm: "clone_model init h m = (h2, [], Inr c)"
    using k r by (simp add: clone_model_def set_all_weights_from_model_def)
  have al2: "allocated ?h2 = ?b + ?n" using kp(3) by (simp add: set_all_pairs_allocated)
  have low: "var ?h2 a = var h a" if "a < ?b" for a
  proof -
    from that have "a \<notin> fst ` set ?ps" unfolding fset by simp
    then show ?thesis using kp(4) [OF that] by (simp add: set_all_pairs_frame)
  qed
  have new: "var ?h2 (?b + i) = var h (weights m ! i)" if i: "i < ?n" for i
  proof -
    from i al have lt: "weights m ! i < ?b" by simp
    have mem: "(?b + i, weights m ! i) \<in> set ?ps"
      unfolding kp(1) using i by (auto simp: set_zip intro!: exI [of _ i])
    from same [OF mem] have s: "shape (var h1 (?b + i)) = shape (var h1 (weights m ! i))" by simp
    have v: "val (var ?h2 (?b + i)) = val (var h (weights m ! i))"
      using set_all_pairs_val [OF dis disj nc mem, of "[]"] s kp(4) [OF lt] by simp
    have n: "name (var ?h2 (?b + i)) = name (var h (weights m ! i))"
      using kp(5) [OF i] by (simp add: set_all_pairs_name)
    have sp: "shape (var ?h2 (?b + i)) = shape (var h (weights m ! i))"
      using kp(5) [OF i] by (simp add: set_all_pairs_shape)
    have dp: "dtype (var ?h2 (?b + i)) = dtype (var h (weights m ! i))"
      using kp(5) [OF i] by (simp add: set_all_pairs_dtype)
    show ?thesis using v n sp dp by (simp add: variable.equality)
  qed
  from cm kp(1,2) al2 [unfolded h2] low [unfolded h2] new [unfolded h2] show ?thesis by blast
qed

lemma zip_facts:
  assumes "distinct xs" "set xs \<inter> set ys = {}"
  shows "distinct (map fst (zip xs ys))" "fst ` set (zip xs ys) \<inter> snd ` set (zip xs ys) = {}"
proof -
  show "distinct (map fst (zip xs ys))"
    using assms(1) by (simp add: map_fst_zip_take)
  have "fst ` set (zip xs ys) \<subseteq> set xs" "snd ` set (zip xs ys) \<subseteq> set ys"
    by (auto dest: set_zip_leftD set_zip_rightD)
  with assms(2) show "fst ` set (zip xs ys) \<inter> snd ` set (zip xs ys) = {}" by blast
qed

lemma set_all_weights_pairwise:
  assumes d: "distinct (weights model)" and dj: "set (weights model) \<inter> set (weights source) = {}"
    and nc: "\<forall>p \<in> set (zip (weights model) (weights source)). \<not> dtype_conflict h p"
    and i: "i < length (weights model)" "i < length (weights source)"
  shows "var (fst (set_all_weights_from_model h model source)) (weights model ! i) =
           (if shape (var h (weights model ! i)) = shape (var h (weights source ! i))
            then (var h (weights model ! i))\<lparr>val := val (var h (weights source ! i))\<rparr>
            else var h (weights model ! i))"
proof -
  let ?ps = "zip (weights model) (weights source)"
  let ?a = "weights model ! i" and ?b = "weights source ! i"
  let ?h' = "fst (set_all_weights_from_model h model source)"
  have h': "?h' = fst (set_all_pairs h [] ?ps)"
    by (simp add: set_all_weights_from_model_def)
  have mem: "(?a, ?b) \<in> set ?ps" using i by (auto simp: set_zip)
  note z = zip_facts [OF d dj]
  have v: "val (var ?h' ?a) = (if shape (var h ?a) = shape (var h ?b) then val (var h ?b) else val (var h ?a))"
    unfolding h' by (rule set_all_pairs_val [OF z nc mem])
  have n: "name (var ?h' ?a) = name (var h ?a)" "shape (var ?h' ?a) = shape (var h ?a)"
    "dtype (var ?h' ?a) = dtype (var h ?a)"
    unfolding h' by (simp_all add: set_all_pairs_name set_all_pairs_shape set_all_pairs_dtype)
  show ?thesis using v n by (auto simp: variable.equality)
qed

text \<open>
  C3, as amended. Cloning a functional or sequential model whose variables are allocated, and
  cloning the clone, raises nothing and gives a model whose weights carry the names, shapes,
  dtypes and entries of the original's, weight by weight; the first clone and the original
  are left with the same entries, and neither clone prints a warning: every pair of a clone
  matches in shape and dtype and is copied. In general \<^verbatim>\<open>set_all_weights_from_model\<close>, for
  a destination of distinct variables that it does not share with the source and pairs
  without a dtype conflict, assigns the source's entries to every destination weight of the
  same shape, leaves a destination weight of another shape as it was, and prints one warning
  for each pair of differing shapes.
\<close>

theorem clone_of_clone_keeps_weights:
  "(kind m \<noteq> Subclassed \<and> (\<forall>a \<in> set (weights m). a < allocated h) \<longrightarrow>
      (case clone_model init h m of
         (h1, out1, Inl e) \<Rightarrow> False
       | (h1, out1, Inr c1) \<Rightarrow>
           (case clone_model init' h1 c1 of
              (h2, out2, Inl e) \<Rightarrow> False
            | (h2, out2, Inr c2) \<Rightarrow>
                map (var h2) (weights c2) = map (var h) (weights m) \<and>
                map (var h2) (weights c1) = map (var h) (weights m) \<and>
                map (var h2) (weights m) = map (var h) (weights m) \<and>
                out1 = [] \<and> out2 = []))) \<and>
   (distinct (weights model) \<and> set (weights model) \<inter> set (weights source) = {} \<and>
    (\<forall>p \<in> set (zip (weights model) (weights source)). \<not> dtype_conflict g p) \<longrightarrow>
      (case set_all_weights_from_model g model source of
         (g', out, raised) \<Rightarrow>
           raised = None \<and>
           (\<forall>i < min (length (weights model)) (length (weights source)).
              var g' (weights model ! i) =
                (if shape (var g (weights model ! i)) = shape (var g (weights source ! i))
                 then (var g (weights model ! i))\<lparr>val := val (var g (weights source ! i))\<rparr>
                 else var g (weights model ! i))) \<and>
           out = map (warning_for g)
                   (filter (mismatch g) (zip (weights model) (weights source)))))"
proof (intro conjI impI)
  assume a: "kind m \<noteq> Subclassed \<and> (\<forall>a \<in> set (weights m). a < allocated h)"
  then have kd: "kind m \<noteq> Subclassed" and al: "\<forall>a \<in> set (weights m). a < allocated h"
    by simp_all
  let ?b = "allocated h" and ?n = "length (weights m)"
  from clone_model_props [OF al kd, of init] obtain h1 c1
    where c1: "clone_model init h m = (h1, [], Inr c1)"
      and w1: "weights c1 = [?b ..< ?b + ?n]" and k1: "kind c1 = kind m"
      and a1: "allocated h1 = ?b + ?n"
      and low1: "\<forall>a < ?b. var h1 a = var h a"
      and new1: "\<forall>i < ?n. var h1 (?b + i) = var h (weights m ! i)"
    by blast
  have al1: "\<forall>a \<in> set (weights c1). a < allocated h1" using w1 a1 by simp
  have kd1: "kind c1 \<noteq> Subclassed" using k1 kd by simp
  have len: "length (weights c1) = ?n" using w1 by simp
  from clone_model_props [OF al1 kd1, of init'] obtain h2 c2
    where c2: "clone_model init' h1 c1 = (h2, [], Inr c2)"
      and w2: "weights c2 = [allocated h1 ..< allocated h1 + ?n]"
      and low2: "\<forall>a < allocated h1. var h2 a = var h1 a"
      and new2: "\<forall>i < ?n. var h2 (allocated h1 + i) = var h1 (weights c1 ! i)"
    unfolding len by blast
  have old: "var h2 a = var h a" if "a < ?b" for a
    using that a1 low1 low2 by simp
  have mid: "var h2 (weights c1 ! i) = var h (weights m ! i)" if "i < ?n" for i
  proof -
    have "weights c1 ! i = ?b + i" using that w1 by simp
    moreover have "?b + i < allocated h1" using that a1 by simp
    ultimately show ?thesis using low2 new1 that by simp
  qed
  have new: "var h2 (weights c2 ! i) = var h (weights m ! i)" if "i < ?n" for i
  proof -
    have "weights c2 ! i = allocated h1 + i" using that w2 by simp
    moreover have "var h2 (allocated h1 + i) = var h1 (weights c1 ! i)"
      using new2 that by simp
    moreover have "var h1 (weights c1 ! i) = var h (weights m ! i)"
      using new1 w1 that by simp
    ultimately show ?thesis by simp
  qed
  have "map (var h2) (weights c2) = map (var h) (weights m)"
    using new w2 by (auto intro!: nth_equalityI)
  moreover have "map (var h2) (weights c1) = map (var h) (weights m)"
    using mid len by (auto intro!: nth_equalityI)
  moreover have "map (var h2) (weights m) = map (var h) (weights m)"
    using old al by simp
  ultimately show "case clone_model init h m of
         (h1, out1, Inl e) \<Rightarrow> False
       | (h1, out1, Inr c1) \<Rightarrow>
           (case clone_model init' h1 c1 of
              (h2, out2, Inl e) \<Rightarrow> False
            | (h2, out2, Inr c2) \<Rightarrow>
                map (var h2) (weights c2) = map (var h) (weights m) \<and>
                map (var h2) (weights c1) = map (var h) (weights m) \<and>
                map (var h2) (weights m) = map (var h) (weights m) \<and>
                out1 = [] \<and> out2 = [])"
    using c1 c2 by simp
next
  assume dd: "distinct (weights model) \<and> set (weights model) \<inter> set (weights source) = {} \<and>
    (\<forall>p \<in> set (zip (weights model) (weights source)). \<not> dtype_conflict g p)"
  then have d: "distinct (weights model)" and dj: "set (weights model) \<inter> set (weights source) = {}"
    and nc: "\<forall>p \<in> set (zip (weights model) (weights source)). \<not> dtype_conflict g p"
    by simp_all
  let ?r = "set_all_weights_from_model g model source"
  have ret: "snd (snd ?r) = None"
    unfolding set_all_weights_from_model_def by (rule set_all_pairs_returns [OF nc])
  have out: "fst (snd ?r) =
      map (warning_for g) (filter (mismatch g) (zip (weights model) (weights source)))"
    using set_all_pairs_out [of g "[]" "zip (weights model) (weights source)"] ret
    by (simp add: set_all_weights_from_model_def)
  have vals: "\<forall>i < min (length (weights model)) (length (weights source)).
            var (fst ?r) (weights model ! i) =
              (if shape (var g (weights model ! i)) = shape (var g (weights source ! i))
               then (var g (weights model ! i))\<lparr>val := val (var g (weights source ! i))\<rparr>
               else var g (weights model ! i))"
    using set_all_weights_pairwise [OF d dj nc] by simp
  show "case set_all_weights_from_model g model source of
         (g', out, raised) \<Rightarrow>
           raised = None \<and>
           (\<forall>i < min (length (weights model)) (length (weights source)).
              var g' (weights model ! i) =
                (if shape (var g (weights model ! i)) = shape (var g (weights source ! i))
                 then (var g (weights model ! i))\<lparr>val := val (var g (weights source ! i))\<rparr>
                 else var g (weights model ! i))) \<and>
           out = map (warning_for g)
                   (filter (mismatch g) (zip (weights model) (weights source)))"
    using ret out vals by (simp add: case_prod_beta)
qed

text \<open>
  An instance of the amended C3 on the example heap: the functional model of the two
  convolution variables is cloned twice; and the convolution model takes the weights of the
  dense model, whose bias has another shape.
\<close>

theorem clone_of_clone_keeps_weights_witness:
  "(case clone_model (\<lambda>i. [Number 0]) ex_heap \<lparr>weights = [0, 1], kind = Functional\<rparr> of
      (h1, out1, Inl e) \<Rightarrow> False
    | (h1, out1, Inr c1) \<Rightarrow>
        (case clone_model (\<lambda>i. []) h1 c1 of
           (h2, out2, Inl e) \<Rightarrow> False
         | (h2, out2, Inr c2) \<Rightarrow>
             weights c1 = [5, 6] \<and> weights c2 = [7, 8] \<and>
             map (\<lambda>a. val (var h2 a)) [7, 8] = [[Number 1, Number (- 2)], [Number 3]] \<and>
             map (\<lambda>a. val (var h2 a)) [5, 6] = [[Number 1, Number (- 2)], [Number 3]] \<and>
             map (\<lambda>a. val (var h2 a)) [0, 1] = [[Number 1, Number (- 2)], [Number 3]] \<and>
             out1 = [] \<and> out2 = [])) \<and>
   (case set_all_weights_from_model ex_heap \<lparr>weights = [0, 1], kind = Functional\<rparr>
           \<lparr>weights = [2, 3], kind = Sequential\<rparr> of
      (g', out, raised) \<Rightarrow>
        raised = None \<and> val (var g' 0) = [Number 5, Number 7] \<and> val (var g' 1) = [Number 3] \<and>
        out = [WarningSkipping ''conv/bias'' [1] [3]])"
proof -
  let ?m = "\<lparr>weights = [0, 1], kind = Functional\<rparr>"
  let ?s = "\<lparr>weights = [2, 3], kind = Sequential\<rparr>"
  have al: "\<forall>a \<in> set (weights ?m). a < allocated ex_heap"
    by (simp add: ex_heap_def)
  have kd: "kind ?m \<noteq> Subclassed" by simp
  have hypA: "kind ?m \<noteq> Subclassed \<and> (\<forall>a \<in> set (weights ?m). a < allocated ex_heap)"
    using al by simp
  have hypB: "distinct (weights ?m) \<and> set (weights ?m) \<inter> set (weights ?s) = {} \<and>
      (\<forall>p \<in> set (zip (weights ?m) (weights ?s)). \<not> dtype_conflict ex_heap p)"
    by (simp add: dtype_conflict_def ex_heap_def)
  from clone_model_props [OF al kd, of "\<lambda>i. [Number 0]"] obtain h1 c1
    where r1: "clone_model (\<lambda>i. [Number 0]) ex_heap ?m = (h1, [], Inr c1)"
      and w1: "weights c1 = [5, 6]" and k1: "kind c1 = Functional" and a1: "allocated h1 = 7"
    by (auto simp: ex_heap_def)
  have al1: "\<forall>a \<in> set (weights c1). a < allocated h1" using w1 a1 by simp
  have kd1: "kind c1 \<noteq> Subclassed" using k1 by simp
  from clone_model_props [OF al1 kd1, of "\<lambda>i. []"] obtain h2 c2
    where r2: "clone_model (\<lambda>i. []) h1 c1 = (h2, [], Inr c2)"
      and w2: "weights c2 = [7, 8]"
    using w1 a1 by auto
  obtain g' out raised where r3: "set_all_weights_from_model ex_heap ?m ?s = (g', out, raised)"
    by (cases "set_all_weights_from_model ex_heap ?m ?s")
  note t = clone_of_clone_keeps_weights
      [where m = ?m and h = ex_heap and init = "\<lambda>i. [Number 0]" and init' = "\<lambda>i. []"
         and model = ?m and source = ?s and g = ex_heap]
  from t [THEN conjunct1, THEN mp, OF hypA] r1 r2 have A:
    "map (var h2) (weights c2) = map (var ex_heap) [0, 1]"
    "map (var h2) (weights c1) = map (var ex_heap) [0, 1]"
    "map (var h2) [0, 1] = map (var ex_heap) [0, 1]"
    by simp_all
  from t [THEN conjunct2, THEN mp, OF hypB] r3 have B:
    "raised = None"
    "\<forall>i < 2. var g' ([0, 1] ! i) =
        (if shape (var ex_heap ([0, 1] ! i)) = shape (var ex_heap ([2, 3] ! i))
         then (var ex_heap ([0, 1] ! i))\<lparr>val := val (var ex_heap ([2, 3] ! i))\<rparr>
         else var ex_heap ([0, 1] ! i))"
    "out = map (warning_for ex_heap) (filter (mismatch ex_heap) (zip [0, 1] [2, 3]))"
    by simp_all
  from B(2) [rule_format, of 0] have b0: "val (var g' 0) = [Number 5, Number 7]"
    by (simp add: ex_heap_def)
  from B(2) [rule_format, of 1] have b1: "val (var g' 1) = [Number 3]"
    by (simp add: ex_heap_def)
  from B(3) have o: "out = [WarningSkipping ''conv/bias'' [1] [3]]"
    by (simp add: ex_heap_def mismatch_def warning_for_def)
  from A w1 w2 have v:
     "map (\<lambda>a. val (var h2 a)) [7, 8] = [[Number 1, Number (- 2)], [Number 3]]"
     "map (\<lambda>a. val (var h2 a)) [5, 6] = [[Number 1, Number (- 2)], [Number 3]]"
     "map (\<lambda>a. val (var h2 a)) [0, 1] = [[Number 1, Number (- 2)], [Number 3]]"
    by (simp_all add: ex_heap_def)
  show ?thesis using r1 r2 r3 w1 w2 v B(1) b0 b1 o by simp
qed

text \<open>
  C3 as stated fails. For a model of a subclass the framework refuses to clone, so
  \<^verbatim>\<open>clone_model\<close> raises and there is no clone; and a pair of weights of one shape and two
  dtypes is neither copied nor skipped with a warning: its assignment raises.
\<close>

theorem clone_of_subclassed_model_counterexample:
  "clone_model (\<lambda>i. [Number 0]) ex_heap \<lparr>weights = [0, 1], kind = Subclassed\<rparr>
     = (ex_heap, [], Inl (ValueError ''subclassed'')) \<and>
   shape (var ex_heap 0) = shape (var ex_heap 4) \<and>
   set_all_weights_from_model ex_heap \<lparr>weights = [0], kind = Functional\<rparr>
       \<lparr>weights = [4], kind = Functional\<rparr>
     = (ex_heap, [], Some (ValueError ''dtype''))"
  by (simp add: clone_model_def keras_clone_model_def set_all_weights_from_model_def
        assign_def ex_heap_def)

section \<open>Weight lists of different lengths\<close>

lemma zip_take_min:
  "zip (take (min (length xs) (length ys)) xs) (take (min (length xs) (length ys)) ys) = zip xs ys"
proof -
  have "zip (take (min (length xs) (length ys)) xs) (take (min (length xs) (length ys)) ys)
          = take (length (zip xs ys)) (zip xs ys)"
    by (simp add: take_zip)
  then show ?thesis by simp
qed

lemma fst_set_zip: "fst ` set (zip xs ys) = set (take (min (length xs) (length ys)) xs)"
proof -
  have "fst ` set (zip xs ys) = set (map fst (zip xs ys))" by simp
  also have "\<dots> = set (take (min (length xs) (length ys)) xs)"
    by (simp only: map_fst_zip_take)
  finally show ?thesis .
qed

text \<open>
  C9, as amended. When the two weight lists differ in length,
  \<^verbatim>\<open>set_all_weights_from_model\<close> does what it does on the two lists cut to the length \<open>n\<close>
  of the shorter one. The printed lines are warnings for pairs among the first \<open>n\<close>, one for
  every pair of differing shapes when no assignment raises, so none is printed for an excess
  weight. No variable other than the first \<open>n\<close> destination weights is touched: every excess
  weight that is not also one of these keeps its variable as it was.
\<close>

theorem set_all_weights_ignores_excess:
  "(let n = min (length (weights model)) (length (weights source));
        r = set_all_weights_from_model h model source
    in r = set_all_weights_from_model h
             (model\<lparr>weights := take n (weights model)\<rparr>)
             (source\<lparr>weights := take n (weights source)\<rparr>) \<and>
       (\<exists>k \<le> n. fst (snd r) =
            map (warning_for h)
              (filter (mismatch h) (take k (zip (weights model) (weights source))))) \<and>
       (snd (snd r) = None \<longrightarrow>
          fst (snd r) =
            map (warning_for h)
              (filter (mismatch h) (zip (take n (weights model)) (take n (weights source))))) \<and>
       (\<forall>a. a \<notin> set (take n (weights model)) \<longrightarrow> var (fst r) a = var h a))"
proof -
  let ?n = "min (length (weights model)) (length (weights source))"
  let ?r = "set_all_weights_from_model h model source"
  let ?ps = "zip (weights model) (weights source)"
  have r: "?r = set_all_pairs h [] ?ps" by (simp add: set_all_weights_from_model_def)
  have trunc: "?r = set_all_weights_from_model h
             (model\<lparr>weights := take ?n (weights model)\<rparr>)
             (source\<lparr>weights := take ?n (weights source)\<rparr>)"
    by (simp add: set_all_weights_from_model_def zip_take_min)
  from set_all_pairs_out_prefix [of ?ps h "[]"] obtain k where "k \<le> length ?ps"
    "fst (snd (set_all_pairs h [] ?ps)) = [] @ map (warning_for h) (filter (mismatch h) (take k ?ps))"
    by blast
  then have pre: "\<exists>k \<le> ?n. fst (snd ?r) = map (warning_for h) (filter (mismatch h) (take k ?ps))"
    unfolding r by auto
  have out: "fst (snd ?r) = map (warning_for h)
                 (filter (mismatch h) (zip (take ?n (weights model)) (take ?n (weights source))))"
    if "snd (snd ?r) = None"
    using set_all_pairs_out [of h "[]" ?ps] that unfolding r by (simp add: zip_take_min)
  have frame: "var (fst ?r) a = var h a" if "a \<notin> set (take ?n (weights model))" for a
    unfolding r using that by (simp only: set_all_pairs_frame fst_set_zip not_False_eq_True)
  show ?thesis
    unfolding Let_def using trunc pre out frame by blast
qed

text \<open>
  Two instances of the amended C9 on the example heap: a destination with one weight more
  than the source (its first pair has differing shapes), and a source with one weight more
  than the destination.
\<close>

theorem set_all_weights_ignores_excess_witness:
  "(case set_all_weights_from_model ex_heap \<lparr>weights = [1, 0], kind = Functional\<rparr>
           \<lparr>weights = [3], kind = Functional\<rparr> of
      (h', out, raised) \<Rightarrow>
        raised = None \<and> out = [WarningSkipping ''conv/bias'' [1] [3]] \<and>
        var h' 0 = var ex_heap 0 \<and> var h' 3 = var ex_heap 3) \<and>
   (case set_all_weights_from_model ex_heap \<lparr>weights = [0], kind = Functional\<rparr>
           \<lparr>weights = [2, 3], kind = Functional\<rparr> of
      (h', out, raised) \<Rightarrow>
        raised = None \<and> out = [] \<and> val (var h' 0) = [Number 5, Number 7] \<and>
        var h' 2 = var ex_heap 2 \<and> var h' 3 = var ex_heap 3)"
proof -
  let ?m1 = "\<lparr>weights = [1, 0], kind = Functional\<rparr>" and ?s1 = "\<lparr>weights = [3], kind = Functional\<rparr>"
  let ?m2 = "\<lparr>weights = [0], kind = Functional\<rparr>" and ?s2 = "\<lparr>weights = [2, 3], kind = Functional\<rparr>"
  let ?r = "set_all_weights_from_model ex_heap ?m1 ?s1"
  let ?q = "set_all_weights_from_model ex_heap ?m2 ?s2"
  note t = set_all_weights_ignores_excess
      [where model = ?m1 and source = ?s1 and h = ex_heap, unfolded Let_def]
  note u = set_all_weights_ignores_excess
      [where model = ?m2 and source = ?s2 and h = ex_heap, unfolded Let_def]
  have t0: "snd (snd ?r) = None"
    by (simp add: set_all_weights_from_model_def ex_heap_def)
  have u0: "snd (snd ?q) = None"
    by (simp add: set_all_weights_from_model_def ex_heap_def assign_def)
  from t [THEN conjunct2, THEN conjunct2, THEN conjunct1, THEN mp, OF t0]
  have t1: "fst (snd ?r) = [WarningSkipping ''conv/bias'' [1] [3]]"
    by (simp add: mismatch_def warning_for_def ex_heap_def)
  note tf = t [THEN conjunct2, THEN conjunct2, THEN conjunct2, rule_format]
  have t4: "var (fst ?r) 0 = var ex_heap 0" by (rule tf) simp
  have t5: "var (fst ?r) 3 = var ex_heap 3" by (rule tf) simp
  from u [THEN conjunct2, THEN conjunct2, THEN conjunct1, THEN mp, OF u0]
  have u1: "fst (snd ?q) = []"
    by (simp add: mismatch_def warning_for_def ex_heap_def)
  note uf = u [THEN conjunct2, THEN conjunct2, THEN conjunct2, rule_format]
  have u3: "var (fst ?q) 2 = var ex_heap 2" by (rule uf) simp
  have u4: "var (fst ?q) 3 = var ex_heap 3" by (rule uf) simp
  have u5: "val (var (fst ?q) 0) = [Number 5, Number 7]"
    by (simp add: set_all_weights_from_model_def ex_heap_def assign_def store_def)
  show ?thesis using t0 t1 t4 t5 u0 u1 u3 u4 u5 by (simp add: case_prod_beta)
qed

text \<open>
  C9 as stated fails when the models share a variable: the source's second weight is in
  excess, it is also the destination's only weight, and it is overwritten with the source's
  first weight, silently.
\<close>

theorem shared_excess_weight_counterexample:
  "length (weights \<lparr>weights = [2::nat], kind = Functional\<rparr>) = 1 \<and>
   weights \<lparr>weights = [0, 2::nat], kind = Functional\<rparr> ! 1 = 2 \<and>
   val (var ex_heap 2) = [Number 5, Number 7] \<and>
   (case set_all_weights_from_model ex_heap \<lparr>weights = [2], kind = Functional\<rparr>
           \<lparr>weights = [0, 2], kind = Functional\<rparr> of
      (h', out, raised) \<Rightarrow>
        val (var h' 2) = [Number 1, Number (- 2)] \<and> out = [] \<and> raised = None)"
  by (simp add: set_all_weights_from_model_def assign_def store_def ex_heap_def)

section \<open>Resetting to a checkpoint\<close>

text \<open>\<open>py_in\<close> is containment of a contiguous piece, as Python's \<^verbatim>\<open>in\<close> on strings.\<close>

lemma py_in_iff: "py_in k s = (\<exists>p q. s = p @ k @ q)"
proof (induction s)
  case Nil
  show ?case by auto
next
  case (Cons c s)
  show ?case
  proof
    assume "py_in k (c # s)"
    then consider "take (length k) (c # s) = k" | "py_in k s" by auto
    then show "\<exists>p q. c # s = p @ k @ q"
    proof cases
      case 1
      then have "c # s = [] @ k @ drop (length k) (c # s)"
        by (metis append_Nil append_take_drop_id)
      then show ?thesis by blast
    next
      case 2
      with Cons obtain p q where "s = p @ k @ q" by blast
      then have "c # s = (c # p) @ k @ q" by simp
      then show ?thesis by blast
    qed
  next
    assume "\<exists>p q. c # s = p @ k @ q"
    then obtain p q where pq: "c # s = p @ k @ q" by blast
    show "py_in k (c # s)"
    proof (cases p)
      case Nil
      with pq have "take (length k) (c # s) = k" by simp
      then show ?thesis by simp
    next
      case (Cons c' p')
      with pq have "s = p' @ k @ q" by simp
      with Cons.IH have "py_in k s" by blast
      then show ?thesis by simp
    qed
  qed
qed

lemma reset_pairs_frame:
  "a \<notin> fst ` set ps \<Longrightarrow> var (fst (reset_pairs kw h k ps)) a = var h a"
  by (induction kw h k ps rule: reset_pairs.induct)
     (auto simp: var_store split: sum.splits dest!: assign_Inr)

text \<open>A pair of weights of the same shape and dtype, as a weight and its clone are.\<close>

lemma reset_pairs_result:
  "\<forall>p \<in> set ps. shape (var h (snd p)) = shape (var h (fst p)) \<and>
                  dtype (var h (snd p)) = dtype (var h (fst p)) \<Longrightarrow>
   snd (reset_pairs kw h k ps) =
     (k + length (filter (\<lambda>p. skips kw (name (var h (fst p)))) ps), None)"
proof (induction kw h k ps rule: reset_pairs.induct)
  case (1 kw h k)
  show ?case by simp
next
  case (2 kw h k w1 w2 ps)
  from "2.prems" have same: "dtype (var h w2) = dtype (var h w1)" "shape (var h w2) = shape (var h w1)"
    and rest: "\<forall>p \<in> set ps. shape (var h (snd p)) = shape (var h (fst p)) \<and>
                  dtype (var h (snd p)) = dtype (var h (fst p))"
    by simp_all
  show ?case
  proof (cases "skips kw (name (var h w1))")
    case True
    from "2.IH"(1) [OF True rest] True show ?thesis by simp
  next
    case False
    let ?h1 = "store h w1 (val (var h w2))"
    have a: "assign h w1 (var h w2) = Inr ?h1" by (rule assign_same_kind [OF same])
    from rest have "\<forall>p \<in> set ps. shape (var ?h1 (snd p)) = shape (var ?h1 (fst p)) \<and>
                  dtype (var ?h1 (snd p)) = dtype (var ?h1 (fst p))"
      by (simp add: shape_store dtype_store)
    from "2.IH"(2) [OF False a this] False a show ?thesis by (simp add: name_store)
  qed
qed

lemma reset_pairs_var:
  "distinct (map fst ps) \<Longrightarrow> fst ` set ps \<inter> snd ` set ps = {} \<Longrightarrow>
   \<forall>p \<in> set ps. shape (var h (snd p)) = shape (var h (fst p)) \<and>
                  dtype (var h (snd p)) = dtype (var h (fst p)) \<Longrightarrow>
   (w1, w2) \<in> set ps \<Longrightarrow>
   var (fst (reset_pairs kw h k ps)) w1 =
     (if skips kw (name (var h w1)) then var h w1 else (var h w1)\<lparr>val := val (var h w2)\<rparr>)"
proof (induction kw h k ps rule: reset_pairs.induct)
  case (1 kw h k)
  then show ?case by simp
next
  case (2 kw h k a b ps)
  from "2.prems" have d: "distinct (map fst ps)" "fst ` set ps \<inter> snd ` set ps = {}"
    and a: "a \<notin> fst ` set ps" "a \<notin> snd ` set ps" "a \<noteq> b"
    and same: "dtype (var h b) = dtype (var h a)" "shape (var h b) = shape (var h a)"
    and rest: "\<forall>p \<in> set ps. shape (var h (snd p)) = shape (var h (fst p)) \<and>
                  dtype (var h (snd p)) = dtype (var h (fst p))"
    by auto
  let ?h1 = "store h a (val (var h b))"
  have as: "assign h a (var h b) = Inr ?h1" by (rule assign_same_kind [OF same])
  have rest1: "\<forall>p \<in> set ps. shape (var ?h1 (snd p)) = shape (var ?h1 (fst p)) \<and>
                  dtype (var ?h1 (snd p)) = dtype (var ?h1 (fst p))"
    using rest by (simp add: shape_store dtype_store)
  show ?case
  proof (cases "(w1, w2) = (a, b)")
    case True
    then show ?thesis using a as by (auto simp: reset_pairs_frame var_store)
  next
    case False
    with "2.prems"(4) have mem: "(w1, w2) \<in> set ps" by auto
    then have ne: "w1 \<noteq> a" "w2 \<noteq> a" using a by (force simp: image_iff)+
    show ?thesis
    proof (cases "skips kw (name (var h a))")
      case True
      from "2.IH"(1) [OF True d rest mem] True show ?thesis by simp
    next
      case False
      from "2.IH"(2) [OF False as d rest1 mem] ne False as show ?thesis by (simp add: var_store)
    qed
  qed
qed

lemma load_pairs_frame:
  "a \<notin> fst ` set ps \<Longrightarrow> var (load_pairs h ps) a = var h a"
  by (induction h ps rule: load_pairs.induct) (auto simp: var_store)

lemma load_pairs_var:
  "distinct (map fst ps) \<Longrightarrow> (w, arr) \<in> set ps \<Longrightarrow>
   var (load_pairs h ps) w = (var h w)\<lparr>val := snd arr\<rparr>"
proof (induction h ps rule: load_pairs.induct)
  case (1 h)
  then show ?case by simp
next
  case (2 h a b ps)
  show ?case
  proof (cases "(w, arr) = (a, b)")
    case True
    with "2.prems" have "a \<notin> fst ` set ps" by auto
    with True show ?thesis by (simp add: load_pairs_frame var_store)
  next
    case False
    with "2.prems" have mem: "(w, arr) \<in> set ps" and d: "distinct (map fst ps)" by auto
    from "2.prems" mem have "w \<noteq> a" by (force simp: image_iff)
    with "2.IH" [OF d mem] show ?thesis by (simp add: var_store)
  qed
qed

text \<open>
  The loop of the reset after the clone: the model's weights \<open>ws\<close> lie below \<open>b\<close>, the
  clone's are the \<open>b + i\<close>, each with the shape and dtype of the weight it was cloned from.
\<close>

lemma reset_loop_after_clone:
  assumes d: "distinct ws" and al: "\<forall>a \<in> set ws. a < b"
    and low: "\<forall>a. a < b \<longrightarrow> var h2 a = var h a"
    and cl: "\<forall>i < length ws. shape (var h2 (b + i)) = shape (var h (ws ! i)) \<and>
                               dtype (var h2 (b + i)) = dtype (var h (ws ! i))"
  shows "i < length ws \<Longrightarrow>
           var (fst (reset_pairs kw h2 k (zip ws [b ..< b + length ws]))) (ws ! i) =
             (if skips kw (name (var h (ws ! i))) then var h (ws ! i)
              else (var h (ws ! i))\<lparr>val := val (var h2 (b + i))\<rparr>)"
    and "snd (reset_pairs kw h2 k (zip ws [b ..< b + length ws])) =
           (k + length (filter (\<lambda>w. skips kw (name (var h w))) ws), None)"
proof -
  let ?ps = "zip ws [b ..< b + length ws]"
  have fsts: "map fst ?ps = ws" and snds: "map snd ?ps = [b ..< b + length ws]" by simp_all
  have dis: "distinct (map fst ?ps)" using d fsts by simp
  have fset: "fst ` set ?ps = set ws" using fsts by (metis set_map)
  have sset: "snd ` set ?ps = {b ..< b + length ws}" using snds by (metis set_map set_upt)
  have disj: "fst ` set ?ps \<inter> snd ` set ?ps = {}"
    unfolding fset sset using al by fastforce
  have same: "\<forall>p \<in> set ?ps. shape (var h2 (snd p)) = shape (var h2 (fst p)) \<and>
                  dtype (var h2 (snd p)) = dtype (var h2 (fst p))"
  proof
    fix p assume "p \<in> set ?ps"
    then obtain j where j: "j < length ws" and p: "p = (ws ! j, b + j)"
      by (auto simp: set_zip)
    from j al have "ws ! j < b" by simp
    with low have "var h2 (ws ! j) = var h (ws ! j)" by simp
    with cl j p show "shape (var h2 (snd p)) = shape (var h2 (fst p)) \<and>
                  dtype (var h2 (snd p)) = dtype (var h2 (fst p))" by simp
  qed
  show "var (fst (reset_pairs kw h2 k ?ps)) (ws ! i) =
             (if skips kw (name (var h (ws ! i))) then var h (ws ! i)
              else (var h (ws ! i))\<lparr>val := val (var h2 (b + i))\<rparr>)" if i: "i < length ws"
  proof -
    have mem: "(ws ! i, b + i) \<in> set ?ps" using i by (auto simp: set_zip intro!: exI [of _ i])
    from i al have "ws ! i < b" by simp
    then have "var h2 (ws ! i) = var h (ws ! i)" using low by simp
    with reset_pairs_var [OF dis disj same mem, of kw k] show ?thesis by simp
  qed
  have "filter (\<lambda>p. skips kw (name (var h2 (fst p)))) ?ps
          = filter (\<lambda>p. skips kw (name (var h (fst p)))) ?ps"
  proof (rule filter_cong [OF refl])
    fix p assume "p \<in> set ?ps"
    then have "fst p \<in> set ws" using fset by auto
    with al have "fst p < b" by simp
    then show "skips kw (name (var h2 (fst p))) = skips kw (name (var h (fst p)))"
      using low by simp
  qed
  moreover have "length (filter (\<lambda>p. skips kw (name (var h (fst p)))) ?ps)
                   = length (filter (\<lambda>w. skips kw (name (var h w))) (map fst ?ps))"
    by (simp only: filter_map length_map comp_def)
  ultimately show "snd (reset_pairs kw h2 k ?ps) =
           (k + length (filter (\<lambda>w. skips kw (name (var h w))) ws), None)"
    using fsts by (simp only: reset_pairs_result [OF same])
qed

lemma reset_fresh:
  assumes kd: "kind model \<noteq> Subclassed"
    and d: "distinct (weights model)" and al: "\<forall>a \<in> set (weights model). a < allocated h"
  shows "\<exists>h'. reset_weights_to_checkpoint fs init h model None skip_keyword
                = (h', [InfoReset (skipped_count h model skip_keyword) skip_keyword],
                   Inr (skipped_count h model skip_keyword)) \<and>
              (\<forall>i < length (weights model).
                 var h' (weights model ! i) =
                   (if skips skip_keyword (name (var h (weights model ! i)))
                    then var h (weights model ! i)
                    else (var h (weights model ! i))\<lparr>val := init i\<rparr>))"
proof -
  let ?b = "allocated h" and ?n = "length (weights model)"
  from keras_clone_model_returns [OF kd] obtain h1 temp
    where k: "keras_clone_model init h model = Inr (h1, temp)" by blast
  note kp = keras_clone_model_props [OF k]
  let ?ps = "zip (weights model) [?b ..< ?b + ?n]"
  have low: "\<forall>a. a < ?b \<longrightarrow> var h1 a = var h a" using kp(4) by simp
  have cl: "\<forall>i < ?n. shape (var h1 (?b + i)) = shape (var h (weights model ! i)) \<and>
                      dtype (var h1 (?b + i)) = dtype (var h (weights model ! i))"
    using kp(5) by simp
  note l = reset_loop_after_clone [OF d al low cl, where kw = skip_keyword and k = 0]
  obtain h3 where r: "reset_pairs skip_keyword h1 0 ?ps
      = (h3, skipped_count h model skip_keyword, None)"
    using l(2) by (cases "reset_pairs skip_keyword h1 0 ?ps") (simp add: skipped_count_def)
  have res: "reset_weights_to_checkpoint fs init h model None skip_keyword
               = (h3, [InfoReset (skipped_count h model skip_keyword) skip_keyword],
                  Inr (skipped_count h model skip_keyword))"
    using k r kp(1) by (simp add: reset_weights_to_checkpoint_def)
  have v: "var h3 (weights model ! i) =
               (if skips skip_keyword (name (var h (weights model ! i)))
                then var h (weights model ! i)
                else (var h (weights model ! i))\<lparr>val := init i\<rparr>)" if "i < ?n" for i
    using l(1) [OF that] r kp(5) [OF that] by simp
  show ?thesis using res v by simp
qed

lemma clone_shapes:
  assumes k: "keras_clone_model init h model = Inr (h1, temp)"
  shows "map (\<lambda>w. shape (var h1 w)) (weights temp) = map (\<lambda>w. shape (var h w)) (weights model)"
proof (rule nth_equalityI)
  note kp = keras_clone_model_props [OF k]
  show "length (map (\<lambda>w. shape (var h1 w)) (weights temp))
          = length (map (\<lambda>w. shape (var h w)) (weights model))"
    by (simp add: kp(1))
  fix i assume "i < length (map (\<lambda>w. shape (var h1 w)) (weights temp))"
  then have i: "i < length (weights model)" by (simp add: kp(1))
  then show "map (\<lambda>w. shape (var h1 w)) (weights temp) ! i
               = map (\<lambda>w. shape (var h w)) (weights model) ! i"
    by (simp add: kp(1) kp(5))
qed

lemma reset_loaded:
  assumes kd: "kind model \<noteq> Subclassed"
    and d: "distinct (weights model)" and al: "\<forall>a \<in> set (weights model). a < allocated h"
    and p: "path \<noteq> []" and f: "fs path = Some saved"
    and sh: "map fst saved = map (\<lambda>w. shape (var h w)) (weights model)"
  shows "\<exists>h'. reset_weights_to_checkpoint fs init h model (Some path) skip_keyword
                = (h', [InfoReset (skipped_count h model skip_keyword) skip_keyword],
                   Inr (skipped_count h model skip_keyword)) \<and>
              (\<forall>i < length (weights model).
                 var h' (weights model ! i) =
                   (if skips skip_keyword (name (var h (weights model ! i)))
                    then var h (weights model ! i)
                    else (var h (weights model ! i))\<lparr>val := snd (saved ! i)\<rparr>))"
proof -
  let ?b = "allocated h" and ?n = "length (weights model)"
  from keras_clone_model_returns [OF kd] obtain h1 temp
    where k: "keras_clone_model init h model = Inr (h1, temp)" by blast
  note kp = keras_clone_model_props [OF k]
  from sh have len: "length saved = ?n" by (metis length_map)
  let ?ls = "zip [?b ..< ?b + ?n] saved"
  let ?h2 = "load_pairs h1 ?ls"
  have fl: "map fst ?ls = [?b ..< ?b + ?n]" using len by simp
  have dl: "distinct (map fst ?ls)" unfolding fl by simp
  have ld: "load_weights fs h1 temp path = Inr ?h2"
    using f sh clone_shapes [OF k] by (simp add: load_weights_def kp(1))
  let ?ps = "zip (weights model) [?b ..< ?b + ?n]"
  have low: "\<forall>a. a < ?b \<longrightarrow> var ?h2 a = var h a"
  proof (intro allI impI)
    fix a assume a: "a < ?b"
    have "fst ` set ?ls = set [?b ..< ?b + ?n]" using fl by (metis set_map)
    with a have "a \<notin> fst ` set ?ls" by simp
    then have "var ?h2 a = var h1 a" by (rule load_pairs_frame)
    with kp(4) [OF a] show "var ?h2 a = var h a" by simp
  qed
  have hi: "var ?h2 (?b + i) = (var h (weights model ! i))\<lparr>val := snd (saved ! i)\<rparr>"
    if i: "i < ?n" for i
  proof -
    have mem: "(?b + i, saved ! i) \<in> set ?ls"
      using i len by (auto simp: set_zip intro!: exI [of _ i])
    from load_pairs_var [OF dl mem] kp(5) [OF i] show ?thesis by simp
  qed
  have cl: "\<forall>i < ?n. shape (var ?h2 (?b + i)) = shape (var h (weights model ! i)) \<and>
                      dtype (var ?h2 (?b + i)) = dtype (var h (weights model ! i))"
    using hi by simp
  note l = reset_loop_after_clone [OF d al low cl, where kw = skip_keyword and k = 0]
  obtain h3 where r: "reset_pairs skip_keyword ?h2 0 ?ps
      = (h3, skipped_count h model skip_keyword, None)"
    using l(2) by (cases "reset_pairs skip_keyword ?h2 0 ?ps") (simp add: skipped_count_def)
  have res: "reset_weights_to_checkpoint fs init h model (Some path) skip_keyword
               = (h3, [InfoReset (skipped_count h model skip_keyword) skip_keyword],
                  Inr (skipped_count h model skip_keyword))"
    using k r p ld kp(1) by (simp add: reset_weights_to_checkpoint_def)
  have v: "var h3 (weights model ! i) =
               (if skips skip_keyword (name (var h (weights model ! i)))
                then var h (weights model ! i)
                else (var h (weights model ! i))\<lparr>val := snd (saved ! i)\<rparr>)" if "i < ?n" for i
    using l(1) [OF that] r hi [OF that] by simp
  show ?thesis using res v by simp
qed

text \<open>
  C2, as amended. For a functional or sequential model whose weights are distinct allocated
  variables (the framework lists every variable of a model once), a non-empty path and a
  checkpoint stored there with the shapes of the model's weights,
  \<^verbatim>\<open>reset_weights_to_checkpoint\<close> raises nothing; every weight whose name contains the
  keyword, the keyword being given and not empty, keeps its variable as it was; every other
  weight keeps its name, shape and dtype and takes the entries the checkpoint holds at its
  position; the value returned is the number of weights skipped, and the one line printed
  reports it.
\<close>

theorem reset_restores_checkpoint_except_skipped:
  "kind model \<noteq> Subclassed \<and>
   distinct (weights model) \<and> (\<forall>a \<in> set (weights model). a < allocated h) \<and>
   path \<noteq> [] \<and> fs path = Some saved \<and>
   map fst saved = map (\<lambda>w. shape (var h w)) (weights model) \<longrightarrow>
     (case reset_weights_to_checkpoint fs init h model (Some path) skip_keyword of
        (h', out, Inl e) \<Rightarrow> False
      | (h', out, Inr skipped) \<Rightarrow>
          (\<forall>i < length (weights model).
             var h' (weights model ! i) =
               (if skips skip_keyword (name (var h (weights model ! i)))
                then var h (weights model ! i)
                else (var h (weights model ! i))\<lparr>val := snd (saved ! i)\<rparr>)) \<and>
          skipped = skipped_count h model skip_keyword \<and>
          out = [InfoReset skipped skip_keyword])"
proof
  assume a: "kind model \<noteq> Subclassed \<and>
   distinct (weights model) \<and> (\<forall>a \<in> set (weights model). a < allocated h) \<and>
   path \<noteq> [] \<and> fs path = Some saved \<and>
   map fst saved = map (\<lambda>w. shape (var h w)) (weights model)"
  then have "kind model \<noteq> Subclassed"
    "distinct (weights model)" "\<forall>a \<in> set (weights model). a < allocated h"
    "path \<noteq> []" "fs path = Some saved"
    "map fst saved = map (\<lambda>w. shape (var h w)) (weights model)" by simp_all
  from reset_loaded [where fs = fs and path = path and init = init
      and skip_keyword = skip_keyword, OF this]
  obtain h' where "reset_weights_to_checkpoint fs init h model (Some path) skip_keyword
                = (h', [InfoReset (skipped_count h model skip_keyword) skip_keyword],
                   Inr (skipped_count h model skip_keyword))"
     "\<forall>i < length (weights model).
                 var h' (weights model ! i) =
                   (if skips skip_keyword (name (var h (weights model ! i)))
                    then var h (weights model ! i)
                    else (var h (weights model ! i))\<lparr>val := snd (saved ! i)\<rparr>)" by blast
  then show "case reset_weights_to_checkpoint fs init h model (Some path) skip_keyword of
        (h', out, Inl e) \<Rightarrow> False
      | (h', out, Inr skipped) \<Rightarrow>
          (\<forall>i < length (weights model).
             var h' (weights model ! i) =
               (if skips skip_keyword (name (var h (weights model ! i)))
                then var h (weights model ! i)
                else (var h (weights model ! i))\<lparr>val := snd (saved ! i)\<rparr>)) \<and>
          skipped = skipped_count h model skip_keyword \<and>
          out = [InfoReset skipped skip_keyword]" by simp
qed

text \<open>
  An instance of the amended C2 on the example heap and file system: the convolution model is
  reset to the checkpoint, skipping the weights named with \<^verbatim>\<open>bias\<close>.
\<close>

theorem reset_restores_checkpoint_except_skipped_witness:
  "(case reset_weights_to_checkpoint ex_files (\<lambda>i. [Number 0]) ex_heap
           \<lparr>weights = [0, 1], kind = Functional\<rparr> (Some ''ckp'') (Some ''bias'') of
      (h', out, Inl e) \<Rightarrow> False
    | (h', out, Inr skipped) \<Rightarrow>
        val (var h' 0) = [Number 9, Number 9] \<and> val (var h' 1) = [Number 3] \<and> skipped = 1 \<and>
        out = [InfoReset 1 (Some ''bias'')])"
proof -
  let ?m = "\<lparr>weights = [0, 1], kind = Functional\<rparr>"
  let ?saved = "[([2], [Number 9, Number 9]), ([1::nat], [Number 8])]"
  let ?r = "reset_weights_to_checkpoint ex_files (\<lambda>i. [Number 0]) ex_heap ?m
              (Some ''ckp'') (Some ''bias'')"
  have hyp: "kind ?m \<noteq> Subclassed \<and>
      distinct (weights ?m) \<and> (\<forall>a \<in> set (weights ?m). a < allocated ex_heap) \<and>
      ''ckp'' \<noteq> [] \<and> ex_files ''ckp'' = Some ?saved \<and>
      map fst ?saved = map (\<lambda>w. shape (var ex_heap w)) (weights ?m)"
    by (simp add: ex_heap_def ex_files_def)
  note t = reset_restores_checkpoint_except_skipped
      [where model = ?m and h = ex_heap and path = "''ckp''" and fs = ex_files
         and saved = ?saved and init = "\<lambda>i. [Number 0]"
         and skip_keyword = "Some ''bias''", THEN mp, OF hyp]
  obtain h' out res where r: "?r = (h', out, res)" by (cases ?r)
  show ?thesis
  proof (cases res)
    case (Inl e)
    with t r show ?thesis by simp
  next
    case (Inr skipped)
    note T = t [unfolded r Inr prod.case sum.case]
    note A = T [THEN conjunct1] and B = T [THEN conjunct2, THEN conjunct1]
      and C = T [THEN conjunct2, THEN conjunct2]
    from A [rule_format, of 0] have a0: "val (var h' 0) = [Number 9, Number 9]"
      by (simp add: ex_heap_def skips_def)
    from A [rule_format, of 1] have a1: "val (var h' 1) = [Number 3]"
      by (simp add: ex_heap_def skips_def)
    from B have b: "skipped = 1" by (simp add: skipped_count_def ex_heap_def skips_def)
    from r Inr a0 a1 b C show ?thesis by simp
  qed
qed

text \<open>
  C2 as stated fails. Every name contains the empty keyword, yet with it both weights are
  overwritten and the count is 0; for a model of a subclass the framework refuses to clone,
  the function raises and restores nothing; and with the keyword \<^verbatim>\<open>conv\<close> the count is
  2 for the kernel and the bias of the one layer \<^verbatim>\<open>conv\<close>: weights are counted, not
  layers.
\<close>

theorem reset_empty_keyword_counterexample:
  "py_in [] (name (var ex_heap 0)) \<and> py_in [] (name (var ex_heap 1)) \<and>
   (case reset_weights_to_checkpoint ex_files (\<lambda>i. [Number 0]) ex_heap
           \<lparr>weights = [0, 1], kind = Functional\<rparr> (Some ''ckp'') (Some []) of
      (h', out, res) \<Rightarrow>
        val (var ex_heap 0) = [Number 1, Number (- 2)] \<and> val (var h' 0) = [Number 9, Number 9] \<and>
        val (var ex_heap 1) = [Number 3] \<and> val (var h' 1) = [Number 8] \<and> res = Inr 0) \<and>
   reset_weights_to_checkpoint ex_files (\<lambda>i. [Number 0]) ex_heap
       \<lparr>weights = [0, 1], kind = Subclassed\<rparr> (Some ''ckp'') None
     = (ex_heap, [], Inl (ValueError ''subclassed'')) \<and>
   name (var ex_heap 0) = ''conv/kernel'' \<and> name (var ex_heap 1) = ''conv/bias'' \<and>
   snd (snd (reset_weights_to_checkpoint ex_files (\<lambda>i. [Number 0]) ex_heap
       \<lparr>weights = [0, 1], kind = Functional\<rparr> (Some ''ckp'') (Some ''conv''))) = Inr 2"
proof -
  let ?m = "\<lparr>weights = [0, 1], kind = Functional\<rparr>"
  let ?saved = "[([2], [Number 9, Number 9]), ([1::nat], [Number 8])]"
  have kd: "kind ?m \<noteq> Subclassed"
    and d: "distinct (weights ?m)" and al: "\<forall>a \<in> set (weights ?m). a < allocated ex_heap"
    and p: "''ckp'' \<noteq> []" and f: "ex_files ''ckp'' = Some ?saved"
    and sh: "map fst ?saved = map (\<lambda>w. shape (var ex_heap w)) (weights ?m)"
    by (simp_all add: ex_heap_def ex_files_def)
  from reset_loaded [where fs = ex_files and path = "''ckp''" and init = "\<lambda>i. [Number 0]"
      and skip_keyword = "Some []", OF kd d al p f sh]
  obtain h' where r: "reset_weights_to_checkpoint ex_files (\<lambda>i. [Number 0]) ex_heap ?m
                         (Some ''ckp'') (Some [])
                = (h', [InfoReset (skipped_count ex_heap ?m (Some [])) (Some [])],
                   Inr (skipped_count ex_heap ?m (Some [])))"
     and A: "\<forall>i < length (weights ?m).
                 var h' (weights ?m ! i) =
                   (if skips (Some []) (name (var ex_heap (weights ?m ! i)))
                    then var ex_heap (weights ?m ! i)
                    else (var ex_heap (weights ?m ! i))\<lparr>val := snd (?saved ! i)\<rparr>)" by blast
  from A [rule_format, of 0] have a0: "val (var h' 0) = [Number 9, Number 9]"
    by (simp add: skips_def)
  from A [rule_format, of 1] have a1: "val (var h' 1) = [Number 8]"
    by (simp add: skips_def)
  have b: "skipped_count ex_heap ?m (Some []) = 0" by (simp add: skipped_count_def skips_def)
  have c: "py_in [] (name (var ex_heap 0))" "py_in [] (name (var ex_heap 1))"
    "val (var ex_heap 0) = [Number 1, Number (- 2)]" "val (var ex_heap 1) = [Number 3]"
    "name (var ex_heap 0) = ''conv/kernel''" "name (var ex_heap 1) = ''conv/bias''"
    by (simp_all add: ex_heap_def)
  have s: "reset_weights_to_checkpoint ex_files (\<lambda>i. [Number 0]) ex_heap
       \<lparr>weights = [0, 1], kind = Subclassed\<rparr> (Some ''ckp'') None
     = (ex_heap, [], Inl (ValueError ''subclassed''))"
    by (simp add: reset_weights_to_checkpoint_def keras_clone_model_def)
  from reset_loaded [where fs = ex_files and path = "''ckp''" and init = "\<lambda>i. [Number 0]"
      and skip_keyword = "Some ''conv''", OF kd d al p f sh]
  have "snd (snd (reset_weights_to_checkpoint ex_files (\<lambda>i. [Number 0]) ex_heap ?m
                         (Some ''ckp'') (Some ''conv'')))
          = Inr (skipped_count ex_heap ?m (Some ''conv''))" by auto
  moreover have "skipped_count ex_heap ?m (Some ''conv'') = 2"
    by (simp add: skipped_count_def skips_def ex_heap_def)
  ultimately have l: "snd (snd (reset_weights_to_checkpoint ex_files (\<lambda>i. [Number 0]) ex_heap ?m
                         (Some ''ckp'') (Some ''conv''))) = Inr 2" by simp
  show ?thesis using r a0 a1 b c s l by simp
qed

text \<open>
  C8, as amended. For a functional or sequential model whose weights are distinct allocated
  variables, \<^verbatim>\<open>reset_weights_to_checkpoint\<close> without a checkpoint raises nothing, whatever
  the file system holds; every weight that is not skipped keeps its name, shape and dtype and
  takes the entries the initialiser drew for the weight at its position in the new clone;
  every skipped weight keeps its variable as it was; the value returned is the number of
  weights skipped.
\<close>

theorem reset_without_checkpoint_uses_fresh_weights:
  "kind model \<noteq> Subclassed \<and>
   distinct (weights model) \<and> (\<forall>a \<in> set (weights model). a < allocated h) \<longrightarrow>
     (case reset_weights_to_checkpoint fs init h model None skip_keyword of
        (h', out, Inl e) \<Rightarrow> False
      | (h', out, Inr skipped) \<Rightarrow>
          (\<forall>i < length (weights model).
             var h' (weights model ! i) =
               (if skips skip_keyword (name (var h (weights model ! i)))
                then var h (weights model ! i)
                else (var h (weights model ! i))\<lparr>val := init i\<rparr>)) \<and>
          skipped = skipped_count h model skip_keyword \<and>
          out = [InfoReset skipped skip_keyword])"
proof
  assume a: "kind model \<noteq> Subclassed \<and>
    distinct (weights model) \<and> (\<forall>a \<in> set (weights model). a < allocated h)"
  then have "kind model \<noteq> Subclassed"
    "distinct (weights model)" "\<forall>a \<in> set (weights model). a < allocated h"
    by simp_all
  from reset_fresh [where fs = fs and init = init and skip_keyword = skip_keyword, OF this]
  obtain h' where "reset_weights_to_checkpoint fs init h model None skip_keyword
                = (h', [InfoReset (skipped_count h model skip_keyword) skip_keyword],
                   Inr (skipped_count h model skip_keyword))"
     "\<forall>i < length (weights model).
                 var h' (weights model ! i) =
                   (if skips skip_keyword (name (var h (weights model ! i)))
                    then var h (weights model ! i)
                    else (var h (weights model ! i))\<lparr>val := init i\<rparr>)" by blast
  then show "case reset_weights_to_checkpoint fs init h model None skip_keyword of
        (h', out, Inl e) \<Rightarrow> False
      | (h', out, Inr skipped) \<Rightarrow>
          (\<forall>i < length (weights model).
             var h' (weights model ! i) =
               (if skips skip_keyword (name (var h (weights model ! i)))
                then var h (weights model ! i)
                else (var h (weights model ! i))\<lparr>val := init i\<rparr>)) \<and>
          skipped = skipped_count h model skip_keyword \<and>
          out = [InfoReset skipped skip_keyword]" by simp
qed

text \<open>
  An instance of the amended C8 on the example heap: the kernel takes the fresh entries, the
  bias is skipped, and the checkpoint present in the file system is not read.
\<close>

theorem reset_without_checkpoint_uses_fresh_weights_witness:
  "(case reset_weights_to_checkpoint ex_files (\<lambda>i. [Number 0, Number 0]) ex_heap
           \<lparr>weights = [0, 1], kind = Functional\<rparr> None (Some ''bias'') of
      (h', out, Inl e) \<Rightarrow> False
    | (h', out, Inr skipped) \<Rightarrow>
        val (var h' 0) = [Number 0, Number 0] \<and> val (var h' 1) = [Number 3] \<and> skipped = 1 \<and>
        out = [InfoReset 1 (Some ''bias'')])"
proof -
  let ?m = "\<lparr>weights = [0, 1], kind = Functional\<rparr>"
  let ?r = "reset_weights_to_checkpoint ex_files (\<lambda>i. [Number 0, Number 0]) ex_heap ?m
              None (Some ''bias'')"
  have hyp: "kind ?m \<noteq> Subclassed \<and>
      distinct (weights ?m) \<and> (\<forall>a \<in> set (weights ?m). a < allocated ex_heap)"
    by (simp add: ex_heap_def)
  note t = reset_without_checkpoint_uses_fresh_weights
      [where model = ?m and h = ex_heap and fs = ex_files and init = "\<lambda>i. [Number 0, Number 0]"
         and skip_keyword = "Some ''bias''", THEN mp, OF hyp]
  obtain h' out res where r: "?r = (h', out, res)" by (cases ?r)
  show ?thesis
  proof (cases res)
    case (Inl e)
    with t r show ?thesis by simp
  next
    case (Inr skipped)
    note T = t [unfolded r Inr prod.case sum.case]
    note A = T [THEN conjunct1] and B = T [THEN conjunct2, THEN conjunct1]
      and C = T [THEN conjunct2, THEN conjunct2]
    from A [rule_format, of 0] have a0: "val (var h' 0) = [Number 0, Number 0]"
      by (simp add: ex_heap_def skips_def)
    from A [rule_format, of 1] have a1: "val (var h' 1) = [Number 3]"
      by (simp add: ex_heap_def skips_def)
    from B have b: "skipped = 1" by (simp add: skipped_count_def ex_heap_def skips_def)
    from r Inr a0 a1 b C show ?thesis by simp
  qed
qed

text \<open>
  C8 as stated fails for a model of a subclass: the framework refuses to clone it, the
  function raises, and no weight of the model is overwritten.
\<close>

theorem reset_of_subclassed_model_counterexample:
  "reset_weights_to_checkpoint ex_files (\<lambda>i. [Number 0, Number 0]) ex_heap
       \<lparr>weights = [0, 1], kind = Subclassed\<rparr> None None
     = (ex_heap, [], Inl (ValueError ''subclassed''))"
  by (simp add: reset_weights_to_checkpoint_def keras_clone_model_def)

section \<open>Properties of clipping\<close>

lemma clip_entry_idem:
  "clip_entry lo hi (clip_entry lo hi e) = clip_entry lo hi e"
  by (cases e) (auto simp: max_def min_def)



lemma clip_collect_eq:
  "clip_collect h lo hi r vs = r @ map (\<lambda>v. clip_by_value (read h v) lo hi) vs"
  by (induction vs arbitrary: r) simp_all

lemma clip_inplace_variables:
  "snd (clip_inplace h lo hi (map Variable ws)) = None \<and>
   (\<forall>a. var (fst (clip_inplace h lo hi (map Variable ws))) a =
          (if a \<in> set ws then (var h a)\<lparr>val := map (clip_entry lo hi) (val (var h a))\<rparr>
           else var h a))"
proof (induction ws arbitrary: h)
  case Nil
  show ?case by simp
next
  case (Cons w ws)
  let ?h1 = "store h w (map (clip_entry lo hi) (val (var h w)))"
  have a: "assign h w (clip_by_value (var h w) lo hi) = Inr ?h1"
    by (simp add: assign_def clip_by_value_def)
  have step: "clip_inplace h lo hi (map Variable (w # ws)) = clip_inplace ?h1 lo hi (map Variable ws)"
    using a by simp
  from Cons [of ?h1] show ?case
    unfolding step by (auto simp: var_store clip_entry_idem)
qed






lemma clip_inplace_array:
  "Array t \<in> set vs \<Longrightarrow> snd (clip_inplace h lo hi vs) = Some (AttributeError ''assign'')"
proof (induction h lo hi vs rule: clip_inplace.induct)
  case (1 h lo hi)
  then show ?case by simp
next
  case (2 h lo hi a vs)
  let ?h1 = "store h a (map (clip_entry lo hi) (val (var h a)))"
  have a: "assign h a (clip_by_value (var h a) lo hi) = Inr ?h1"
    by (simp add: assign_def clip_by_value_def)
  from "2.prems" have "Array t \<in> set vs" by simp
  from "2.IH" [OF a this] a show ?case by simp
next
  case (3 h lo hi u vs)
  show ?case by simp
qed

text \<open>
  C10, as amended. With \<^verbatim>\<open>inplace=False\<close>, \<^verbatim>\<open>clip_many\<close> returns a list of tensors of the
  length of the collection and leaves the heap, so every variable, as it was. With
  \<^verbatim>\<open>inplace=True\<close> it returns \<^verbatim>\<open>None\<close> on a collection of variables, and raises
  \<^verbatim>\<open>AttributeError\<close> when an element of the collection is not a variable.
\<close>

theorem clip_many_returns_list_or_none:
  "(\<exists>r. clip_many h vs clip_at clip_from False = (h, Inr (Some r)) \<and>
        length r = length vs) \<and>
   (\<exists>h1. clip_many h (map Variable ws) clip_at clip_from True = (h1, Inr None)) \<and>
   (Array t \<in> set vs \<longrightarrow>
      snd (clip_many h vs clip_at clip_from True) = Inl (AttributeError ''assign''))"
proof (intro conjI impI)
  show "\<exists>r. clip_many h vs clip_at clip_from False = (h, Inr (Some r)) \<and>
        length r = length vs"
    by (simp add: clip_many_def clip_collect_eq)
next
  let ?lo = "case clip_from of None \<Rightarrow> - clip_at | Some c \<Rightarrow> c"
  obtain h1 r where ci: "clip_inplace h ?lo clip_at (map Variable ws) = (h1, r)"
    by (cases "clip_inplace h ?lo clip_at (map Variable ws)")
  with clip_inplace_variables [of h ?lo clip_at ws] have "r = None" by simp
  with ci show "\<exists>h1. clip_many h (map Variable ws) clip_at clip_from True = (h1, Inr None)"
    by (simp add: clip_many_def)
next
  assume a: "Array t \<in> set vs"
  let ?lo = "case clip_from of None \<Rightarrow> - clip_at | Some c \<Rightarrow> c"
  from clip_inplace_array [OF a, of h ?lo clip_at]
  show "snd (clip_many h vs clip_at clip_from True) = Inl (AttributeError ''assign'')"
    by (cases "clip_inplace h ?lo clip_at vs") (auto simp: clip_many_def)
qed

text \<open>
  An instance of the amended C10 on the example heap: in place, the kernel is clipped before
  the array that follows it raises.
\<close>

theorem clip_many_returns_list_or_none_witness:
  "Array \<lparr>shape = [1], dtype = float32, val = [Number 5]\<rparr>
     \<in> set [Variable 0, Array \<lparr>shape = [1], dtype = float32, val = [Number 5]\<rparr>] \<and>
   (case clip_many ex_heap [Variable 0, Array \<lparr>shape = [1], dtype = float32, val = [Number 5]\<rparr>]
           1 None True of
      (h1, res) \<Rightarrow>
        res = Inl (AttributeError ''assign'') \<and> val (var h1 0) = [Number 1, Number (- 1)])"
proof -
  let ?vs = "[Variable 0, Array \<lparr>shape = [1], dtype = float32, val = [Number 5]\<rparr>]"
  have mem: "Array \<lparr>shape = [1], dtype = float32, val = [Number 5]\<rparr> \<in> set ?vs" by simp
  note t = clip_many_returns_list_or_none
      [where h = ex_heap and vs = ?vs and clip_at = 1 and clip_from = None
         and t = "\<lparr>shape = [1], dtype = float32, val = [Number 5]\<rparr>",
       THEN conjunct2, THEN conjunct2, THEN mp, OF mem]
  have v: "val (var (fst (clip_many ex_heap ?vs 1 None True)) 0) = [Number 1, Number (- 1)]"
    by (simp add: clip_many_def clip_by_value_def assign_def store_def ex_heap_def)
  from t v mem show ?thesis by (simp add: case_prod_beta)
qed

text \<open>
  C10 as stated fails on a collection that holds an array which is not a variable: in place,
  \<^verbatim>\<open>clip_many\<close> raises and returns nothing.
\<close>

theorem clip_many_inplace_array_counterexample:
  "clip_many ex_heap [Array \<lparr>shape = [1], dtype = float32, val = [Number 5]\<rparr>] 1 None True
     = (ex_heap, Inl (AttributeError ''assign''))"
  by (simp add: clip_many_def)

section \<open>Properties of the optimizer restore\<close>

text \<open>
  C5. When the file holds a pickled state that the optimizer rejects, because the optimizer
  has no state of its own while the file has one, or because the numbers or the shapes of
  the arrays differ, \<^verbatim>\<open>update_optimizer\<close> raises nothing, leaves the optimizer as it was and
  prints the warning followed by the \<^verbatim>\<open>ValueError\<close> it caught.
\<close>

theorem update_optimizer_warns_on_rejected_state:
  "fs path = Some (Inr ws) \<and>
   (opt_weights opt = [] \<and> ws \<noteq> [] \<or> map fst (opt_weights opt) \<noteq> map fst ws) \<longrightarrow>
     (\<exists>msg. update_optimizer fs opt path
              = (None, opt, [WarningEmptyOptimizer, PrintedError (ValueError msg)]))"
proof
  assume a: "fs path = Some (Inr ws) \<and>
   (opt_weights opt = [] \<and> ws \<noteq> [] \<or> map fst (opt_weights opt) \<noteq> map fst ws)"
  then have f: "fs path = Some (Inr ws)" and ne: "map fst (opt_weights opt) \<noteq> map fst ws" by auto
  show "\<exists>msg. update_optimizer fs opt path
              = (None, opt, [WarningEmptyOptimizer, PrintedError (ValueError msg)])"
  proof (cases "length (opt_weights opt) = length ws")
    case True
    with ne have "opt_weights opt \<noteq> []" by auto
    with True ne f have "update_optimizer fs opt path
        = (None, opt, [WarningEmptyOptimizer, PrintedError (ValueError ''shape mismatch'')])"
      by (simp add: update_optimizer_def set_weights_def)
    then show ?thesis by blast
  next
    case False
    with f have "update_optimizer fs opt path
        = (None, opt, [WarningEmptyOptimizer, PrintedError (ValueError ''length mismatch'')])"
      by (simp add: update_optimizer_def set_weights_def)
    then show ?thesis by blast
  qed
qed

text \<open>
  Two instances of C5: an optimizer without state and a file with one array, and an
  optimizer whose only array has another shape than the array of the file.
\<close>

theorem update_optimizer_warns_on_rejected_state_witness:
  "update_optimizer [''opt'' \<mapsto> Inr [([2], [Number 1, Number 2])]] \<lparr>opt_weights = []\<rparr> ''opt''
     = (None, \<lparr>opt_weights = []\<rparr>,
        [WarningEmptyOptimizer, PrintedError (ValueError ''length mismatch'')]) \<and>
   (\<exists>msg. update_optimizer [''opt'' \<mapsto> Inr [([2], [Number 1, Number 2])]]
             \<lparr>opt_weights = [([3], [Number 0, Number 0, Number 0])]\<rparr> ''opt''
           = (None, \<lparr>opt_weights = [([3], [Number 0, Number 0, Number 0])]\<rparr>,
              [WarningEmptyOptimizer, PrintedError (ValueError msg)]))"
proof -
  let ?fs = "[''opt'' \<mapsto> Inr [([2::nat], [Number 1, Number 2])]]"
  let ?ws = "[([2::nat], [Number 1, Number 2])]"
  let ?o1 = "\<lparr>opt_weights = []\<rparr>"
  let ?o2 = "\<lparr>opt_weights = [([3], [Number 0, Number 0, Number 0])]\<rparr>"
  have h1: "?fs ''opt'' = Some (Inr ?ws) \<and>
      (opt_weights ?o1 = [] \<and> ?ws \<noteq> [] \<or> map fst (opt_weights ?o1) \<noteq> map fst ?ws)"
    by simp
  have h2: "?fs ''opt'' = Some (Inr ?ws) \<and>
      (opt_weights ?o2 = [] \<and> ?ws \<noteq> [] \<or> map fst (opt_weights ?o2) \<noteq> map fst ?ws)"
    by simp
  note t1 = update_optimizer_warns_on_rejected_state
      [where fs = ?fs and path = "''opt''" and ws = ?ws and opt = ?o1, THEN mp, OF h1]
  note t2 = update_optimizer_warns_on_rejected_state
      [where fs = ?fs and path = "''opt''" and ws = ?ws and opt = ?o2, THEN mp, OF h2]
  have e: "update_optimizer ?fs ?o1 ''opt''
     = (None, ?o1, [WarningEmptyOptimizer, PrintedError (ValueError ''length mismatch'')])"
    by (simp add: update_optimizer_def set_weights_def)
  from t1 t2 e show ?thesis by simp
qed

end
